theory Spec2Isabelle
  imports Main "HOL-Library.AList"
begin

section \<open>Values, errors and dictionaries\<close>

text \<open>
  The module \<^verbatim>\<open>pulp_rpm/common/models.py\<close> is Python 2 and dynamically typed. The
  values that flow through it are modelled by one datatype: strings, integers,
  \<^verbatim>\<open>None\<close>, lists and dictionaries with string keys. A dictionary is an
  association list read with \<open>map_of\<close> and written with \<open>AList.update\<close>; its
  order stands for the order in which \<^verbatim>\<open>iteritems()\<close> yields the entries.
\<close>

datatype pyval =
    PNone
  | PInt int
  | PStr string
  | PList "pyval list"
  | PDict "(string \<times> pyval) list"

type_synonym pydict = "(string \<times> pyval) list"

text \<open>Every exception the module can raise is a value; \<open>Inl\<close> carries it.\<close>

datatype error = KeyError | TypeError | AttributeError | IndexError | ValueError

text \<open>Lists and dictionaries are unhashable: using one as a dictionary key raises
  \<^verbatim>\<open>TypeError\<close>.\<close>

fun hashable :: "pyval \<Rightarrow> bool" where
  "hashable PNone = True"
| "hashable (PInt _) = True"
| "hashable (PStr _) = True"
| "hashable (PList _) = False"
| "hashable (PDict _) = False"

text \<open>The keys of a value that is a dictionary (no keys otherwise).\<close>

fun keys_of :: "pyval \<Rightarrow> string list" where
  "keys_of (PDict d) = map fst d"
| "keys_of _ = []"

text \<open>\<^verbatim>\<open>sep.join(items)\<close>: every item has to be a string, else \<^verbatim>\<open>TypeError\<close>.\<close>

fun strings_of :: "pyval list \<Rightarrow> error + string list" where
  "strings_of [] = Inr []"
| "strings_of (PStr s # vs) =
     (case strings_of vs of Inl e \<Rightarrow> Inl e | Inr ss \<Rightarrow> Inr (s # ss))"
| "strings_of (_ # vs) = Inl TypeError"

fun intersperse :: "string \<Rightarrow> string list \<Rightarrow> string" where
  "intersperse sep [] = []"
| "intersperse sep [s] = s"
| "intersperse sep (s # t # ss) = s @ sep @ intersperse sep (t # ss)"

definition py_join :: "string \<Rightarrow> pyval list \<Rightarrow> error + string" where
  "py_join sep items =
     (case strings_of items of Inl e \<Rightarrow> Inl e | Inr ss \<Rightarrow> Inr (intersperse sep ss))"

section \<open>The classes\<close>

text \<open>The six concrete classes of the module, with their class attributes
  \<^verbatim>\<open>UNIT_KEY_NAMES\<close> and \<^verbatim>\<open>TYPE\<close>.\<close>

datatype cls = Distribution | DRPM | RPM | Errata | PackageGroup | PackageCategory

fun UNIT_KEY_NAMES :: "cls \<Rightarrow> string list" where
  "UNIT_KEY_NAMES Distribution = [''id'', ''family'', ''variant'', ''version'', ''arch'']"
| "UNIT_KEY_NAMES DRPM =
     [''epoch'', ''version'', ''release'', ''filename'', ''checksumtype'', ''checksum'']"
| "UNIT_KEY_NAMES RPM =
     [''name'', ''epoch'', ''version'', ''release'', ''arch'', ''checksumtype'', ''checksum'']"
| "UNIT_KEY_NAMES Errata = [''id'']"
| "UNIT_KEY_NAMES PackageGroup = [''id'', ''repo_id'']"
| "UNIT_KEY_NAMES PackageCategory = [''id'', ''repo_id'']"

fun TYPE_tag :: "cls \<Rightarrow> string" where
  "TYPE_tag Distribution = ''distribution''"
| "TYPE_tag DRPM = ''drpm''"
| "TYPE_tag RPM = ''rpm''"
| "TYPE_tag Errata = ''erratum''"
| "TYPE_tag PackageGroup = ''package_group''"
| "TYPE_tag PackageCategory = ''package_category''"

text \<open>An instance: its class, the attributes stored by \<^verbatim>\<open>setattr\<close> and the
  \<^verbatim>\<open>metadata\<close> attribute.\<close>

record package =
  klass :: cls
  attrs :: pydict
  metadata :: pyval

definition getattr :: "package \<Rightarrow> string \<Rightarrow> error + pyval" where
  "getattr self name =
     (case map_of (attrs self) name of None \<Rightarrow> Inl AttributeError | Some v \<Rightarrow> Inr v)"

section \<open>Construction\<close>

text \<open>
  \<^verbatim>\<open>Package.__init__(self, local_vars)\<close>: the loop stores
  \<^verbatim>\<open>local_vars[name]\<close> for each key name in turn (a missing name raises
  \<^verbatim>\<open>KeyError\<close>), then \<^verbatim>\<open>local_vars.get('metadata', {})\<close> becomes the metadata.
  The entry \<^verbatim>\<open>self\<close> of \<^verbatim>\<open>locals()\<close> is never read and is left out of
  \<open>local_vars\<close>.
\<close>

fun set_attrs :: "string list \<Rightarrow> pydict \<Rightarrow> pydict \<Rightarrow> error + pydict" where
  "set_attrs [] local_vars acc = Inr acc"
| "set_attrs (name # names) local_vars acc =
     (case map_of local_vars name of
        None \<Rightarrow> Inl KeyError
      | Some v \<Rightarrow> set_attrs names local_vars (AList.update name v acc))"

definition Package_init :: "cls \<Rightarrow> pydict \<Rightarrow> error + package" where
  "Package_init c local_vars =
     (case set_attrs (UNIT_KEY_NAMES c) local_vars [] of
        Inl e \<Rightarrow> Inl e
      | Inr a \<Rightarrow>
          Inr \<lparr>klass = c, attrs = a,
               metadata = (case map_of local_vars ''metadata'' of
                             None \<Rightarrow> PDict [] | Some m \<Rightarrow> m)\<rparr>)"

text \<open>The constructors of the six classes. Each passes \<^verbatim>\<open>locals()\<close> on;
  \<^verbatim>\<open>Distribution\<close> takes no metadata and adds the derived \<^verbatim>\<open>id\<close> first.\<close>

definition Distribution_init :: "pyval \<Rightarrow> pyval \<Rightarrow> pyval \<Rightarrow> pyval \<Rightarrow> error + package" where
  "Distribution_init family variant version arch =
     (case py_join ''-'' [PStr ''ks'', family, variant, version, arch] of
        Inl e \<Rightarrow> Inl e
      | Inr i \<Rightarrow>
          Package_init Distribution
            (AList.update ''id'' (PStr i)
               [(''family'', family), (''variant'', variant),
                (''version'', version), (''arch'', arch)]))"

definition DRPM_init ::
  "pyval \<Rightarrow> pyval \<Rightarrow> pyval \<Rightarrow> pyval \<Rightarrow> pyval \<Rightarrow> pyval \<Rightarrow> pyval \<Rightarrow> error + package" where
  "DRPM_init epoch version release filename checksumtype checksum md =
     Package_init DRPM
       [(''epoch'', epoch), (''version'', version), (''release'', release),
        (''filename'', filename), (''checksumtype'', checksumtype),
        (''checksum'', checksum), (''metadata'', md)]"

definition RPM_init ::
  "pyval \<Rightarrow> pyval \<Rightarrow> pyval \<Rightarrow> pyval \<Rightarrow> pyval \<Rightarrow> pyval \<Rightarrow> pyval \<Rightarrow> pyval \<Rightarrow> error + package"
  where
  "RPM_init name epoch version release arch checksumtype checksum md =
     Package_init RPM
       [(''name'', name), (''epoch'', epoch), (''version'', version),
        (''release'', release), (''arch'', arch), (''checksumtype'', checksumtype),
        (''checksum'', checksum), (''metadata'', md)]"

definition Errata_init :: "pyval \<Rightarrow> pyval \<Rightarrow> error + package" where
  "Errata_init i md = Package_init Errata [(''id'', i), (''metadata'', md)]"

definition PackageGroup_init :: "pyval \<Rightarrow> pyval \<Rightarrow> pyval \<Rightarrow> error + package" where
  "PackageGroup_init i repo_id md =
     Package_init PackageGroup [(''id'', i), (''repo_id'', repo_id), (''metadata'', md)]"

definition PackageCategory_init :: "pyval \<Rightarrow> pyval \<Rightarrow> pyval \<Rightarrow> error + package" where
  "PackageCategory_init i repo_id md =
     Package_init PackageCategory [(''id'', i), (''repo_id'', repo_id), (''metadata'', md)]"

subsection \<open>Calling with positional and keyword arguments\<close>

text \<open>
  The parameter names of each \<^verbatim>\<open>__init__\<close> after \<^verbatim>\<open>self\<close>. None has a default,
  \<^verbatim>\<open>*args\<close> or \<^verbatim>\<open>**kwargs\<close>.
\<close>

fun init_params :: "cls \<Rightarrow> string list" where
  "init_params Distribution = [''family'', ''variant'', ''version'', ''arch'']"
| "init_params DRPM =
     [''epoch'', ''version'', ''release'', ''filename'', ''checksumtype'', ''checksum'',
      ''metadata'']"
| "init_params RPM =
     [''name'', ''epoch'', ''version'', ''release'', ''arch'', ''checksumtype'',
      ''checksum'', ''metadata'']"
| "init_params Errata = [''id'', ''metadata'']"
| "init_params PackageGroup = [''id'', ''repo_id'', ''metadata'']"
| "init_params PackageCategory = [''id'', ''repo_id'', ''metadata'']"

text \<open>
  Python's argument binding for such a function, called as \<^verbatim>\<open>f(*pos, **kw)\<close>:
  positional arguments fill the parameters from the left, keywords fill the rest by
  name. Too many positional arguments, a keyword that names a parameter already filled,
  a parameter left unfilled and a keyword that names no parameter all raise
  \<^verbatim>\<open>TypeError\<close>. The result lists the arguments in parameter order.
\<close>

fun bind_args :: "string list \<Rightarrow> pyval list \<Rightarrow> pydict \<Rightarrow> error + pyval list" where
  "bind_args [] [] kw = (if kw = [] then Inr [] else Inl TypeError)"
| "bind_args [] (a # as) kw = Inl TypeError"
| "bind_args (p # ps) (a # as) kw =
     (if map_of kw p \<noteq> None then Inl TypeError
      else case bind_args ps as kw of Inl e \<Rightarrow> Inl e | Inr vs \<Rightarrow> Inr (a # vs))"
| "bind_args (p # ps) [] kw =
     (case map_of kw p of
        None \<Rightarrow> Inl TypeError
      | Some v \<Rightarrow>
          (case bind_args ps [] (AList.delete p kw) of
             Inl e \<Rightarrow> Inl e | Inr vs \<Rightarrow> Inr (v # vs)))"

fun call_init :: "cls \<Rightarrow> pyval list \<Rightarrow> error + package" where
  "call_init Distribution [family, variant, version, arch] =
     Distribution_init family variant version arch"
| "call_init DRPM [epoch, version, release, filename, checksumtype, checksum, md] =
     DRPM_init epoch version release filename checksumtype checksum md"
| "call_init RPM [name, epoch, version, release, arch, checksumtype, checksum, md] =
     RPM_init name epoch version release arch checksumtype checksum md"
| "call_init Errata [i, md] = Errata_init i md"
| "call_init PackageGroup [i, repo_id, md] = PackageGroup_init i repo_id md"
| "call_init PackageCategory [i, repo_id, md] = PackageCategory_init i repo_id md"
| "call_init _ _ = Inl TypeError"

text \<open>\<^verbatim>\<open>cls(*pos, **kw)\<close>: bind the arguments, then run the constructor.\<close>

definition construct :: "cls \<Rightarrow> pyval list \<Rightarrow> pydict \<Rightarrow> error + package" where
  "construct c pos kw =
     (case bind_args (init_params c) pos kw of
        Inl e \<Rightarrow> Inl e
      | Inr vs \<Rightarrow> call_init c vs)"

subsection \<open>\<^verbatim>\<open>from_package_info\<close>\<close>

text \<open>
  The loop over \<^verbatim>\<open>package_info.iteritems()\<close>, with the pair of dictionaries
  \<^verbatim>\<open>(unit_key, metadata)\<close> as its state.
\<close>

fun route :: "cls \<Rightarrow> pydict \<Rightarrow> pydict \<times> pydict \<Rightarrow> pydict \<times> pydict" where
  "route c [] acc = acc"
| "route c ((key, v) # items) (unit_key, md) =
     (if key \<in> set (UNIT_KEY_NAMES c) then route c items (AList.update key v unit_key, md)
      else if key = ''type'' \<and> c \<noteq> Errata then route c items (unit_key, md)
      else route c items (unit_key, AList.update key v md))"

definition from_package_info :: "cls \<Rightarrow> pydict \<Rightarrow> error + package" where
  "from_package_info c package_info =
     (case route c package_info ([], []) of
        (unit_key, md) \<Rightarrow> construct c [] (AList.update ''metadata'' (PDict md) unit_key))"

text \<open>
  The classmethod as a callee: its only parameter after \<^verbatim>\<open>cls\<close> is
  \<^verbatim>\<open>package_info\<close>, on which it calls \<^verbatim>\<open>iteritems()\<close>.
\<close>

definition call_from_package_info :: "cls \<Rightarrow> pyval list \<Rightarrow> pydict \<Rightarrow> error + package" where
  "call_from_package_info c pos kw =
     (case bind_args [''package_info''] pos kw of
        Inl e \<Rightarrow> Inl e
      | Inr vs \<Rightarrow>
          (case vs of
             [PDict package_info] \<Rightarrow> from_package_info c package_info
           | _ \<Rightarrow> Inl AttributeError))"

subsection \<open>The type registry\<close>

definition TYPE_MAP :: "(string \<times> cls) list" where
  "TYPE_MAP =
     [(TYPE_tag Distribution, Distribution), (TYPE_tag DRPM, DRPM), (TYPE_tag Errata, Errata),
      (TYPE_tag PackageCategory, PackageCategory), (TYPE_tag PackageGroup, PackageGroup),
      (TYPE_tag RPM, RPM)]"

text \<open>\<^verbatim>\<open>TYPE_MAP[k]\<close>: an unhashable \<open>k\<close> raises \<^verbatim>\<open>TypeError\<close>, a hashable one
  that is not a key raises \<^verbatim>\<open>KeyError\<close>.\<close>

fun TYPE_MAP_getitem :: "pyval \<Rightarrow> error + cls" where
  "TYPE_MAP_getitem (PStr s) =
     (case map_of TYPE_MAP s of None \<Rightarrow> Inl KeyError | Some c \<Rightarrow> Inr c)"
| "TYPE_MAP_getitem k = (if hashable k then Inl KeyError else Inl TypeError)"

definition from_typed_unit_key_tuple :: "pyval list \<Rightarrow> error + package" where
  "from_typed_unit_key_tuple typed_tuple =
     (case typed_tuple of
        [] \<Rightarrow> Inl IndexError
      | t # args \<Rightarrow>
          (case TYPE_MAP_getitem t of
             Inl e \<Rightarrow> Inl e
           | Inr package_class \<Rightarrow>
               call_from_package_info package_class args [(''metadata'', PDict [])]))"

section \<open>Projections\<close>

text \<open>The property \<^verbatim>\<open>unit_key\<close>: a fresh dictionary filled in the order of
  \<^verbatim>\<open>UNIT_KEY_NAMES\<close>; a missing attribute raises \<^verbatim>\<open>AttributeError\<close>.\<close>

fun unit_key_loop :: "package \<Rightarrow> string list \<Rightarrow> pydict \<Rightarrow> error + pydict" where
  "unit_key_loop self [] key = Inr key"
| "unit_key_loop self (name # names) key =
     (case getattr self name of
        Inl e \<Rightarrow> Inl e
      | Inr v \<Rightarrow> unit_key_loop self names (AList.update name v key))"

definition unit_key :: "package \<Rightarrow> error + pydict" where
  "unit_key self = unit_key_loop self (UNIT_KEY_NAMES (klass self)) []"

text \<open>\<^verbatim>\<open>[getattr(self, name) for name in names]\<close>\<close>

fun getattrs :: "package \<Rightarrow> string list \<Rightarrow> error + pyval list" where
  "getattrs self [] = Inr []"
| "getattrs self (name # names) =
     (case getattr self name of
        Inl e \<Rightarrow> Inl e
      | Inr v \<Rightarrow> (case getattrs self names of Inl e \<Rightarrow> Inl e | Inr vs \<Rightarrow> Inr (v # vs)))"

section \<open>Versioned packages\<close>

text \<open>\<^verbatim>\<open>DRPM\<close> and \<^verbatim>\<open>RPM\<close> are the subclasses of \<^verbatim>\<open>VersionedPackage\<close>; on
  an instance of another class its properties do not exist.\<close>

definition versioned :: "cls \<Rightarrow> bool" where
  "versioned c \<longleftrightarrow> c = DRPM \<or> c = RPM"

definition key_string_without_version :: "package \<Rightarrow> error + string" where
  "key_string_without_version self =
     (if \<not> versioned (klass self) then Inl AttributeError
      else
        case getattrs self
               (filter (\<lambda>key. key \<notin> set [''epoch'', ''version'', ''release'',
                                           ''checksum'', ''checksumtype''])
                  (UNIT_KEY_NAMES (klass self))) of
          Inl e \<Rightarrow> Inl e
        | Inr keys \<Rightarrow> py_join ''-'' (keys @ [PStr (TYPE_tag (klass self))]))"

definition complete_version :: "package \<Rightarrow> error + pyval list" where
  "complete_version self =
     (if \<not> versioned (klass self) then Inl AttributeError
      else getattrs self
             (filter (\<lambda>name. name \<in> set (UNIT_KEY_NAMES (klass self)))
                [''epoch'', ''version'', ''release'']))"

text \<open>
  \<^verbatim>\<open>version_utils.encode\<close> lives in another module: it is the parameter \<open>encode\<close>,
  any function from a value to a string or an exception.
\<close>

fun encode_all :: "(pyval \<Rightarrow> error + string) \<Rightarrow> pyval list \<Rightarrow> error + string list" where
  "encode_all encode [] = Inr []"
| "encode_all encode (field # rest) =
     (case encode field of
        Inl e \<Rightarrow> Inl e
      | Inr s \<Rightarrow>
          (case encode_all encode rest of Inl e \<Rightarrow> Inl e | Inr ss \<Rightarrow> Inr (s # ss)))"

definition complete_version_serialized ::
  "(pyval \<Rightarrow> error + string) \<Rightarrow> package \<Rightarrow> error + string list" where
  "complete_version_serialized encode self =
     (case complete_version self of
        Inl e \<Rightarrow> Inl e
      | Inr version \<Rightarrow> encode_all encode version)"

text \<open>
  Python 2's builtin \<^verbatim>\<open>cmp\<close> on sequences: the first position where the two differ
  decides; when one is a prefix of the other the shorter is smaller. The result is
  \<open>-1\<close>, \<open>0\<close> or \<open>1\<close>. Strings compare by character code, tuples of strings by the
  comparison of their elements.
\<close>

fun cmp_seq :: "('a \<Rightarrow> 'a \<Rightarrow> int) \<Rightarrow> 'a list \<Rightarrow> 'a list \<Rightarrow> int" where
  "cmp_seq c [] [] = 0"
| "cmp_seq c [] (y # ys) = - 1"
| "cmp_seq c (x # xs) [] = 1"
| "cmp_seq c (x # xs) (y # ys) = (if c x y \<noteq> 0 then c x y else cmp_seq c xs ys)"

definition cmp_char :: "char \<Rightarrow> char \<Rightarrow> int" where
  "cmp_char a b =
     (if (of_char a :: nat) < of_char b then - 1
      else if (of_char a :: nat) = of_char b then 0 else 1)"

definition cmp_str :: "string \<Rightarrow> string \<Rightarrow> int" where
  "cmp_str = cmp_seq cmp_char"

definition cmp_tuple :: "string list \<Rightarrow> string list \<Rightarrow> int" where
  "cmp_tuple = cmp_seq cmp_str"

text \<open>\<^verbatim>\<open>VersionedPackage.__cmp__(self, other)\<close>\<close>

definition VersionedPackage_cmp ::
  "(pyval \<Rightarrow> error + string) \<Rightarrow> package \<Rightarrow> package \<Rightarrow> error + int" where
  "VersionedPackage_cmp encode self other =
     (case complete_version_serialized encode self of
        Inl e \<Rightarrow> Inl e
      | Inr a \<Rightarrow>
          (case complete_version_serialized encode other of
             Inl e \<Rightarrow> Inl e
           | Inr b \<Rightarrow> Inr (cmp_tuple a b)))"

section \<open>Distribution\<close>

definition Distribution_relative_path :: "package \<Rightarrow> error + pyval" where
  "Distribution_relative_path self =
     (if klass self = Distribution then getattr self ''id'' else Inl AttributeError)"

subsection \<open>The path functions of \<^verbatim>\<open>os.path\<close> (posixpath, Python 2)\<close>

definition basename :: "string \<Rightarrow> string" where
  "basename p = rev (takeWhile (\<lambda>c. c \<noteq> CHR ''/'') (rev p))"

definition dirname :: "string \<Rightarrow> string" where
  "dirname p =
     (let head = rev (dropWhile (\<lambda>c. c \<noteq> CHR ''/'') (rev p))
      in if head \<noteq> [] \<and> \<not> list_all (\<lambda>c. c = CHR ''/'') head
         then rev (dropWhile (\<lambda>c. c = CHR ''/'') (rev head))
         else head)"

definition startswith_slash :: "string \<Rightarrow> bool" where
  "startswith_slash b = (case b of [] \<Rightarrow> False | c # _ \<Rightarrow> c = CHR ''/'')"

definition endswith_slash :: "string \<Rightarrow> bool" where
  "endswith_slash p = (p \<noteq> [] \<and> last p = CHR ''/'')"

text \<open>\<^verbatim>\<open>os.path.join(a, *p)\<close>; a component that is not a string has no
  \<^verbatim>\<open>startswith\<close>.\<close>

fun os_path_join :: "string \<Rightarrow> pyval list \<Rightarrow> error + string" where
  "os_path_join path [] = Inr path"
| "os_path_join path (PStr b # bs) =
     (if startswith_slash b then os_path_join b bs
      else if path = [] \<or> endswith_slash path then os_path_join (path @ b) bs
      else os_path_join (path @ ''/'' @ b) bs)"
| "os_path_join path (_ # bs) = Inl AttributeError"

fun os_path_basename :: "pyval \<Rightarrow> error + string" where
  "os_path_basename (PStr p) = Inr (basename p)"
| "os_path_basename _ = Inl AttributeError"

fun os_path_dirname :: "pyval \<Rightarrow> error + string" where
  "os_path_dirname (PStr p) = Inr (dirname p)"
| "os_path_dirname _ = Inl AttributeError"

subsection \<open>\<^verbatim>\<open>process_download_reports\<close>\<close>

text \<open>A download report, as far as the method reads it: three attributes and the
  dictionary \<^verbatim>\<open>data\<close>.\<close>

record report =
  url :: pyval
  destination :: pyval
  total_bytes :: pyval
  data :: pydict

definition getitem :: "pydict \<Rightarrow> string \<Rightarrow> error + pyval" where
  "getitem d k = (case map_of d k of None \<Rightarrow> Inl KeyError | Some v \<Rightarrow> Inr v)"

text \<open>
  The dictionary appended for one report; its values are evaluated in the order of the
  source. \<open>storage_path\<close> is \<^verbatim>\<open>constants.DISTRIBUTION_STORAGE_PATH\<close>, a string
  constant of another module.
\<close>

definition file_descriptor :: "string \<Rightarrow> package \<Rightarrow> report \<Rightarrow> error + pyval" where
  "file_descriptor storage_path self r =
     (case getitem (data r) ''checksum'' of Inl e \<Rightarrow> Inl e | Inr checksum \<Rightarrow>
      case getitem (data r) ''checksumtype'' of Inl e \<Rightarrow> Inl e | Inr checksumtype \<Rightarrow>
      case getitem (data r) ''relativepath'' of Inl e \<Rightarrow> Inl e | Inr relativepath \<Rightarrow>
      case os_path_basename relativepath of Inl e \<Rightarrow> Inl e | Inr filename \<Rightarrow>
      case getattr self ''id'' of Inl e \<Rightarrow> Inl e | Inr i \<Rightarrow>
      case os_path_dirname relativepath of Inl e \<Rightarrow> Inl e | Inr d \<Rightarrow>
      case os_path_join storage_path [i, PStr d] of Inl e \<Rightarrow> Inl e | Inr pkgpath \<Rightarrow>
        Inr (PDict
          [(''checksum'', checksum),
           (''checksumtype'', checksumtype),
           (''downloadurl'', url r),
           (''filename'', PStr filename),
           (''fileName'', PStr filename),
           (''item_type'', PStr (TYPE_tag (klass self))),
           (''pkgpath'', PStr pkgpath),
           (''relativepath'', relativepath),
           (''savepath'', destination r),
           (''size'', total_bytes r)]))"

text \<open>
  The loop appends to the list in place, so the descriptors appended before an
  exception stay: the result is the list as it stands and the exception, if any.
\<close>

fun append_reports ::
  "string \<Rightarrow> package \<Rightarrow> pyval list \<Rightarrow> report list \<Rightarrow> pyval list \<times> error option" where
  "append_reports storage_path self files [] = (files, None)"
| "append_reports storage_path self files (r # reports) =
     (case file_descriptor storage_path self r of
        Inl e \<Rightarrow> (files, Some e)
      | Inr d \<Rightarrow> append_reports storage_path self (files @ [d]) reports)"

text \<open>
  The method mutates \<^verbatim>\<open>self.metadata\<close>; the model returns the instance after the call
  and the exception raised, if any. \<^verbatim>\<open>setdefault\<close> needs a dictionary,
  \<^verbatim>\<open>append\<close> a list; the method exists on \<^verbatim>\<open>Distribution\<close> only.
\<close>

definition process_download_reports ::
  "string \<Rightarrow> package \<Rightarrow> report list \<Rightarrow> package \<times> error option" where
  "process_download_reports storage_path self reports =
     (if klass self \<noteq> Distribution then (self, Some AttributeError)
      else
        case metadata self of
          PDict md \<Rightarrow>
            (case map_of md ''files'' of
               None \<Rightarrow>
                 (case append_reports storage_path self [] reports of
                    (files, err) \<Rightarrow>
                      (self\<lparr>metadata := PDict (AList.update ''files'' (PList files) md)\<rparr>,
                       err))
             | Some (PList metadata_files) \<Rightarrow>
                 (case append_reports storage_path self metadata_files reports of
                    (files, err) \<Rightarrow>
                      (self\<lparr>metadata := PDict (AList.update ''files'' (PList files) md)\<rparr>,
                       err))
             | Some _ \<Rightarrow>
                 (self, if reports = [] then None else Some AttributeError))
        | _ \<Rightarrow> (self, Some AttributeError))"

section \<open>Properties of construction\<close>

subsection \<open>Auxiliary facts\<close>

lemma call_from_package_info_metadata_kw:
  "call_from_package_info c pos [(''metadata'', m)] = Inl TypeError"
proof (cases pos)
  case Nil
  then show ?thesis by (simp add: call_from_package_info_def)
next
  case (Cons a as)
  then show ?thesis by (cases as) (simp_all add: call_from_package_info_def)
qed

lemma set_attrs_missing:
  "n \<in> set names \<Longrightarrow> map_of local_vars n = None \<Longrightarrow> set_attrs names local_vars acc = Inl KeyError"
  by (induction names arbitrary: acc) (auto split: option.splits)

lemma set_attrs_total:
  "\<forall>n\<in>set names. map_of local_vars n \<noteq> None \<Longrightarrow> \<exists>a. set_attrs names local_vars acc = Inr a"
  by (induction names arbitrary: acc) (auto split: option.splits)

lemma set_attrs_keys:
  "set_attrs names local_vars acc = Inr a \<Longrightarrow> fst ` set a = fst ` set acc \<union> set names"
proof (induction names arbitrary: acc)
  case Nil
  then show ?case by simp
next
  case (Cons n ns)
  then obtain v where v: "map_of local_vars n = Some v"
    and r: "set_attrs ns local_vars (AList.update n v acc) = Inr a"
    by (auto split: option.splits)
  from Cons.IH [OF r] show ?case by (auto simp: dom_update)
qed

lemma set_attrs_lookup:
  "set_attrs names local_vars acc = Inr a \<Longrightarrow>
   map_of a n = (if n \<in> set names then map_of local_vars n else map_of acc n)"
proof (induction names arbitrary: acc)
  case Nil
  then show ?case by simp
next
  case (Cons m ms)
  then obtain v where v: "map_of local_vars m = Some v"
    and r: "set_attrs ms local_vars (AList.update m v acc) = Inr a"
    by (auto split: option.splits)
  from Cons.IH [OF r] v show ?case by (auto simp: update_conv')
qed

lemma Package_init_Inr:
  assumes "Package_init c local_vars = Inr u"
  shows "klass u = c"
    and "fst ` set (attrs u) = set (UNIT_KEY_NAMES c)"
    and "n \<in> set (UNIT_KEY_NAMES c) \<Longrightarrow> map_of (attrs u) n = map_of local_vars n"
    and "metadata u = (case map_of local_vars ''metadata'' of None \<Rightarrow> PDict [] | Some m \<Rightarrow> m)"
proof -
  from assms obtain a where a: "set_attrs (UNIT_KEY_NAMES c) local_vars [] = Inr a"
    and u: "u = \<lparr>klass = c, attrs = a,
               metadata = (case map_of local_vars ''metadata'' of None \<Rightarrow> PDict [] | Some m \<Rightarrow> m)\<rparr>"
    by (auto simp: Package_init_def split: sum.splits)
  show "klass u = c" by (simp add: u)
  show "fst ` set (attrs u) = set (UNIT_KEY_NAMES c)"
    using set_attrs_keys [OF a] by (simp add: u)
  show "n \<in> set (UNIT_KEY_NAMES c) \<Longrightarrow> map_of (attrs u) n = map_of local_vars n"
    using set_attrs_lookup [OF a, of n] by (simp add: u)
  show "metadata u = (case map_of local_vars ''metadata'' of None \<Rightarrow> PDict [] | Some m \<Rightarrow> m)"
    by (simp add: u)
qed

lemma unit_key_loop_keys:
  "unit_key_loop self names key = Inr k \<Longrightarrow> fst ` set k = fst ` set key \<union> set names"
proof (induction names arbitrary: key)
  case Nil
  then show ?case by simp
next
  case (Cons n ns)
  then obtain v where r: "unit_key_loop self ns (AList.update n v key) = Inr k"
    by (auto split: sum.splits)
  from Cons.IH [OF r] show ?case by (auto simp: dom_update)
qed

lemma unit_key_loop_lookup:
  "unit_key_loop self names key = Inr k \<Longrightarrow>
   map_of k n = (if n \<in> set names then map_of (attrs self) n else map_of key n)"
proof (induction names arbitrary: key)
  case Nil
  then show ?case by simp
next
  case (Cons m ms)
  then obtain v where v: "getattr self m = Inr v"
    and r: "unit_key_loop self ms (AList.update m v key) = Inr k"
    by (auto split: sum.splits)
  from v have "map_of (attrs self) m = Some v"
    by (auto simp: getattr_def split: option.splits)
  with Cons.IH [OF r] show ?case by (auto simp: update_conv')
qed

lemma unit_key_loop_total:
  "set names \<subseteq> fst ` set (attrs self) \<Longrightarrow> \<exists>k. unit_key_loop self names key = Inr k"
proof (induction names arbitrary: key)
  case Nil
  then show ?case by simp
next
  case (Cons n ns)
  then have "map_of (attrs self) n \<noteq> None"
    by (simp add: map_of_eq_None_iff)
  then obtain v where "getattr self n = Inr v"
    by (auto simp: getattr_def)
  with Cons show ?case by simp
qed

lemma bind_args_keywords:
  "distinct ps \<Longrightarrow> bind_args ps [] kw = Inr vs \<Longrightarrow>
   length vs = length ps \<and> fst ` set kw \<subseteq> set ps \<and>
   (\<forall>p\<in>set ps. map_of (zip ps vs) p = map_of kw p)"
proof (induction ps arbitrary: kw vs)
  case Nil
  then show ?case by (simp split: if_splits)
next
  case (Cons p ps)
  from Cons.prems obtain v vs' where v: "map_of kw p = Some v"
    and r: "bind_args ps [] (AList.delete p kw) = Inr vs'" and vs: "vs = v # vs'"
    by (auto split: option.splits sum.splits)
  from Cons.prems have d: "distinct ps" "p \<notin> set ps" by simp_all
  from Cons.IH [OF d(1) r] have ih: "length vs' = length ps"
    "fst ` set (AList.delete p kw) \<subseteq> set ps"
    "\<forall>q\<in>set ps. map_of (zip ps vs') q = map_of (AList.delete p kw) q" by simp_all
  have "set (map fst (AList.delete p kw)) = set (map fst kw) - {p}"
    by (simp add: delete_keys)
  then have "fst ` set kw \<subseteq> set (p # ps)"
    using ih(2) by auto
  moreover have "\<forall>q\<in>set (p # ps). map_of (zip (p # ps) vs) q = map_of kw q"
    using ih(3) d(2) v by (auto simp: vs delete_conv')
  moreover have "length vs = length (p # ps)" using ih(1) by (simp add: vs)
  ultimately show ?case by blast
qed

lemma call_init_zip:
  "c \<noteq> Distribution \<Longrightarrow> length vs = length (init_params c) \<Longrightarrow>
   call_init c vs = Package_init c (zip (init_params c) vs)"
  by (cases c)
    (auto simp: length_Suc_conv numeral_eq_Suc DRPM_init_def RPM_init_def Errata_init_def
       PackageGroup_init_def PackageCategory_init_def)

subsection \<open>Reconstruction from a typed tuple\<close>

text \<open>
  C1. The specification expects that the typed tuple
  \<^verbatim>\<open>("rpm", "bash", "0", "4.3", "1", "x86_64", "sha256", "abc")\<close> is turned into an
  RPM with these key fields and empty metadata. The function hands the seven values and
  the keyword \<^verbatim>\<open>metadata\<close> to \<^verbatim>\<open>from_package_info\<close>, which takes one dictionary and
  no keyword: the call raises \<^verbatim>\<open>TypeError\<close> and no unit is built.
\<close>

theorem from_typed_unit_key_tuple_rpm_example:
  "from_typed_unit_key_tuple
     [PStr ''rpm'', PStr ''bash'', PStr ''0'', PStr ''4.3'', PStr ''1'', PStr ''x86_64'',
      PStr ''sha256'', PStr ''abc''] = Inl TypeError"
  by (simp add: from_typed_unit_key_tuple_def TYPE_MAP_def call_from_package_info_metadata_kw)

text \<open>
  The constructor itself, called the way the docstring of the function describes (key
  values in order, then a dictionary of metadata), builds the expected unit.
\<close>

lemma construct_rpm_example:
  "construct RPM
     [PStr ''bash'', PStr ''0'', PStr ''4.3'', PStr ''1'', PStr ''x86_64'',
      PStr ''sha256'', PStr ''abc''] [(''metadata'', PDict [])] =
   Inr \<lparr>klass = RPM,
        attrs = [(''name'', PStr ''bash''), (''epoch'', PStr ''0''), (''version'', PStr ''4.3''),
                 (''release'', PStr ''1''), (''arch'', PStr ''x86_64''),
                 (''checksumtype'', PStr ''sha256''), (''checksum'', PStr ''abc'')],
        metadata = PDict []\<rparr>"
  by (simp add: construct_def RPM_init_def Package_init_def)

text \<open>The function never returns a unit, whatever the tuple.\<close>

lemma from_typed_unit_key_tuple_never_returns:
  "from_typed_unit_key_tuple typed_tuple \<noteq> Inr u"
  by (auto simp: from_typed_unit_key_tuple_def call_from_package_info_metadata_kw
      split: list.splits sum.splits)

text \<open>
  C9. A typed tuple whose first element is a tag other than the six registered ones
  raises \<^verbatim>\<open>KeyError\<close> at the lookup in \<^verbatim>\<open>TYPE_MAP\<close>, whatever follows the tag, and no
  unit is produced.
\<close>

theorem from_typed_unit_key_tuple_unknown_tag:
  assumes "tag \<notin> set [''distribution'', ''drpm'', ''erratum'', ''package_category'',
                        ''package_group'', ''rpm'']"
  shows "from_typed_unit_key_tuple (PStr tag # args) = Inl KeyError"
  using assms by (simp add: from_typed_unit_key_tuple_def TYPE_MAP_def)

theorem from_typed_unit_key_tuple_unknown_tag_witness:
  "''srpm'' \<notin> set [''distribution'', ''drpm'', ''erratum'', ''package_category'',
                     ''package_group'', ''rpm''] \<and>
   from_typed_unit_key_tuple [PStr ''srpm'', PStr ''bash'', PStr ''0''] = Inl KeyError"
  using from_typed_unit_key_tuple_unknown_tag [of "''srpm''" "[PStr ''bash'', PStr ''0'']"]
  by simp

text \<open>
  A first element that is not a string is no key of \<^verbatim>\<open>TYPE_MAP\<close> either: \<^verbatim>\<open>None\<close> or a
  number raises \<^verbatim>\<open>KeyError\<close> as well, a list or a dictionary is unhashable and raises
  \<^verbatim>\<open>TypeError\<close>. An empty tuple has no first element.
\<close>

lemma from_typed_unit_key_tuple_not_string:
  "\<forall>s. t \<noteq> PStr s \<Longrightarrow>
   from_typed_unit_key_tuple (t # args) = Inl (if hashable t then KeyError else TypeError)"
  by (cases t) (simp_all add: from_typed_unit_key_tuple_def)

lemma from_typed_unit_key_tuple_empty:
  "from_typed_unit_key_tuple [] = Inl IndexError"
  by (simp add: from_typed_unit_key_tuple_def)

subsection \<open>Routing of fields in \<^verbatim>\<open>from_package_info\<close>\<close>

lemma init_params_distinct: "distinct (init_params c)"
  by (cases c) simp_all

lemma init_params_eq: "c \<noteq> Distribution \<Longrightarrow> init_params c = UNIT_KEY_NAMES c @ [''metadata'']"
  by (cases c) simp_all

lemma metadata_not_key_name: "''metadata'' \<notin> set (UNIT_KEY_NAMES c)"
  by (cases c) simp_all

lemma type_not_key_name: "''type'' \<notin> set (UNIT_KEY_NAMES c)"
  by (cases c) simp_all

lemma metadata_not_param_Distribution: "''metadata'' \<notin> set (init_params Distribution)"
  by simp

lemma call_init_length:
  "call_init c vs = Inr u \<Longrightarrow> length vs = length (init_params c)"
  by (erule call_init.elims) simp_all

lemma route_metadata_keys:
  "route c items (uk, md) = (uk', md') \<Longrightarrow>
   fst ` set md' =
     fst ` set md \<union>
     {k \<in> fst ` set items. k \<notin> set (UNIT_KEY_NAMES c) \<and> (k \<noteq> ''type'' \<or> c = Errata)}"
proof (induction items arbitrary: uk md)
  case Nil
  then show ?case by simp
next
  case (Cons kv items)
  obtain k v where kv: "kv = (k, v)" by (cases kv)
  show ?case
  proof (cases "k \<in> set (UNIT_KEY_NAMES c)")
    case True
    with Cons.prems have "route c items (AList.update k v uk, md) = (uk', md')"
      by (simp add: kv)
    from Cons.IH [OF this] True show ?thesis by (auto simp: kv)
  next
    case False
    show ?thesis
    proof (cases "k = ''type'' \<and> c \<noteq> Errata")
      case True
      with False Cons.prems have "route c items (uk, md) = (uk', md')"
        by (simp add: kv)
      from Cons.IH [OF this] True show ?thesis by (auto simp: kv)
    next
      case nt: False
      with False Cons.prems have "route c items (uk, AList.update k v md) = (uk', md')"
        by (auto simp: kv)
      from Cons.IH [OF this] False nt show ?thesis by (auto simp: kv dom_update)
    qed
  qed
qed

lemma route_unit_key_keys:
  "route c items (uk, md) = (uk', md') \<Longrightarrow>
   fst ` set uk' = fst ` set uk \<union> (fst ` set items \<inter> set (UNIT_KEY_NAMES c))"
proof (induction items arbitrary: uk md)
  case Nil
  then show ?case by simp
next
  case (Cons kv items)
  obtain k v where kv: "kv = (k, v)" by (cases kv)
  show ?case
  proof (cases "k \<in> set (UNIT_KEY_NAMES c)")
    case True
    with Cons.prems have "route c items (AList.update k v uk, md) = (uk', md')"
      by (simp add: kv)
    from Cons.IH [OF this] True show ?thesis by (auto simp: kv dom_update)
  next
    case False
    then obtain md2 where "route c items (uk, md2) = (uk', md')"
      using Cons.prems by (auto simp: kv split: if_splits)
    from Cons.IH [OF this] False show ?thesis by (auto simp: kv)
  qed
qed

lemma route_metadata_lookup:
  "route c items (uk, md) = (uk', md') \<Longrightarrow> distinct (map fst items) \<Longrightarrow>
   k \<notin> set (UNIT_KEY_NAMES c) \<Longrightarrow> k \<noteq> ''type'' \<or> c = Errata \<Longrightarrow>
   map_of md' k = (case map_of items k of None \<Rightarrow> map_of md k | Some v \<Rightarrow> Some v)"
proof (induction items arbitrary: uk md)
  case Nil
  then show ?case by simp
next
  case (Cons kv items)
  obtain j v where kv: "kv = (j, v)" by (cases kv)
  from Cons.prems have d: "distinct (map fst items)" and j: "j \<notin> fst ` set items"
    by (auto simp: kv)
  from j have jn: "map_of items j = None" by (simp add: map_of_eq_None_iff)
  show ?case
  proof (cases "j \<in> set (UNIT_KEY_NAMES c)")
    case True
    with Cons.prems have r: "route c items (AList.update j v uk, md) = (uk', md')"
      by (simp add: kv)
    from True Cons.prems have "j \<noteq> k" by auto
    with Cons.IH [OF r d Cons.prems(3,4)] show ?thesis by (simp add: kv)
  next
    case False
    show ?thesis
    proof (cases "j = ''type'' \<and> c \<noteq> Errata")
      case True
      with False Cons.prems have r: "route c items (uk, md) = (uk', md')"
        by (simp add: kv)
      from True Cons.prems have "j \<noteq> k" by auto
      with Cons.IH [OF r d Cons.prems(3,4)] show ?thesis by (simp add: kv)
    next
      case nt: False
      with False Cons.prems have r: "route c items (uk, AList.update j v md) = (uk', md')"
        by (auto simp: kv)
      show ?thesis
        using Cons.IH [OF r d Cons.prems(3,4)] jn
        by (auto simp: kv update_conv' split: option.splits)
    qed
  qed
qed

lemma route_unit_key_lookup:
  "route c items (uk, md) = (uk', md') \<Longrightarrow> distinct (map fst items) \<Longrightarrow>
   k \<in> set (UNIT_KEY_NAMES c) \<Longrightarrow>
   map_of uk' k = (case map_of items k of None \<Rightarrow> map_of uk k | Some v \<Rightarrow> Some v)"
proof (induction items arbitrary: uk md)
  case Nil
  then show ?case by simp
next
  case (Cons kv items)
  obtain j v where kv: "kv = (j, v)" by (cases kv)
  from Cons.prems have d: "distinct (map fst items)" and j: "j \<notin> fst ` set items"
    by (auto simp: kv)
  from j have jn: "map_of items j = None" by (simp add: map_of_eq_None_iff)
  show ?case
  proof (cases "j \<in> set (UNIT_KEY_NAMES c)")
    case True
    with Cons.prems have r: "route c items (AList.update j v uk, md) = (uk', md')"
      by (simp add: kv)
    show ?thesis
      using Cons.IH [OF r d Cons.prems(3)] jn
      by (auto simp: kv update_conv' split: option.splits)
  next
    case False
    then obtain md2 where r: "route c items (uk, md2) = (uk', md')"
      using Cons.prems by (auto simp: kv split: if_splits)
    from False Cons.prems have "j \<noteq> k" by auto
    with Cons.IH [OF r d Cons.prems(3)] show ?thesis by (simp add: kv)
  qed
qed

lemma from_package_info_Inr:
  assumes "from_package_info c package_info = Inr u"
    and "route c package_info ([], []) = (uk, md)"
  shows "c \<noteq> Distribution"
    and "klass u = c"
    and "fst ` set (attrs u) = set (UNIT_KEY_NAMES c)"
    and "n \<in> set (UNIT_KEY_NAMES c) \<Longrightarrow> map_of (attrs u) n = map_of uk n"
    and "metadata u = PDict md"
proof -
  let ?kw = "AList.update ''metadata'' (PDict md) uk"
  from assms obtain vs where b: "bind_args (init_params c) [] ?kw = Inr vs"
    and ci: "call_init c vs = Inr u"
    by (auto simp: from_package_info_def construct_def split: sum.splits)
  from bind_args_keywords [OF init_params_distinct b]
  have len: "length vs = length (init_params c)"
    and sub: "fst ` set ?kw \<subseteq> set (init_params c)"
    and lk: "\<And>p. p \<in> set (init_params c) \<Longrightarrow> map_of (zip (init_params c) vs) p = map_of ?kw p"
    by auto
  from sub have m: "''metadata'' \<in> set (init_params c)" by (auto simp: dom_update)
  then show nd: "c \<noteq> Distribution" by auto
  from ci call_init_zip [OF nd len]
  have p: "Package_init c (zip (init_params c) vs) = Inr u" by simp
  show "klass u = c" by (rule Package_init_Inr(1) [OF p])
  show "fst ` set (attrs u) = set (UNIT_KEY_NAMES c)" by (rule Package_init_Inr(2) [OF p])
  show "map_of (attrs u) n = map_of uk n" if n: "n \<in> set (UNIT_KEY_NAMES c)" for n
  proof -
    from n have "n \<in> set (init_params c)" "n \<noteq> ''metadata''"
      using metadata_not_key_name [of c] by (auto simp: init_params_eq [OF nd])
    with Package_init_Inr(3) [OF p n] lk [of n] show ?thesis
      by (simp add: update_conv')
  qed
  from lk [OF m] Package_init_Inr(4) [OF p] show "metadata u = PDict md"
    by (simp add: update_conv')
qed

lemma bind_args_error: "bind_args ps pos kw = Inl e \<Longrightarrow> e = TypeError"
  by (induction ps pos kw rule: bind_args.induct) (auto split: if_splits option.splits sum.splits)

lemma from_package_info_Distribution:
  "from_package_info Distribution package_info = Inl TypeError"
proof -
  obtain uk md where r: "route Distribution package_info ([], []) = (uk, md)"
    by (cases "route Distribution package_info ([], [])")
  let ?kw = "AList.update ''metadata'' (PDict md) uk"
  have "bind_args (init_params Distribution) [] ?kw \<noteq> Inr vs" for vs
  proof
    assume "bind_args (init_params Distribution) [] ?kw = Inr vs"
    from bind_args_keywords [OF init_params_distinct this]
    have "fst ` set ?kw \<subseteq> set (init_params Distribution)" by simp
    then show False by (auto simp: dom_update)
  qed
  then obtain e where "bind_args (init_params Distribution) [] ?kw = Inl e"
    by (cases "bind_args (init_params Distribution) [] ?kw") auto
  with bind_args_error [OF this] show ?thesis
    by (simp add: from_package_info_def construct_def r)
qed

lemma unit_key_of_complete:
  assumes "fst ` set (attrs u) = set (UNIT_KEY_NAMES (klass u))"
  shows "\<exists>key. unit_key u = Inr key \<and> set (map fst key) = set (UNIT_KEY_NAMES (klass u)) \<and>
           (\<forall>n\<in>set (UNIT_KEY_NAMES (klass u)). map_of key n = map_of (attrs u) n)"
proof -
  from assms have "set (UNIT_KEY_NAMES (klass u)) \<subseteq> fst ` set (attrs u)" by simp
  from unit_key_loop_total [OF this, of "[]"] obtain key where
    k: "unit_key_loop u (UNIT_KEY_NAMES (klass u)) [] = Inr key" by blast
  from unit_key_loop_keys [OF k] unit_key_loop_lookup [OF k] k show ?thesis
    by (auto simp: unit_key_def)
qed


lemma bind_args_keywords_total:
  "distinct ps \<Longrightarrow> fst ` set kw = set ps \<Longrightarrow> \<exists>vs. bind_args ps [] kw = Inr vs"
proof (induction ps arbitrary: kw)
  case Nil
  then show ?case by simp
next
  case (Cons p ps)
  then have "map_of kw p \<noteq> None" by (simp add: map_of_eq_None_iff)
  then obtain v where v: "map_of kw p = Some v" by auto
  have "set (map fst (AList.delete p kw)) = set (map fst kw) - {p}"
    by (simp add: delete_keys)
  with Cons.prems have "fst ` set (AList.delete p kw) = set ps" by auto
  from Cons.IH [OF _ this] Cons.prems(1) v show ?case by auto
qed

lemma from_package_info_total:
  assumes "c \<noteq> Distribution" and "set (UNIT_KEY_NAMES c) \<subseteq> fst ` set package_info"
  shows "\<exists>u. from_package_info c package_info = Inr u"
proof -
  obtain uk md where r: "route c package_info ([], []) = (uk, md)"
    by (cases "route c package_info ([], [])")
  let ?kw = "AList.update ''metadata'' (PDict md) uk"
  from route_unit_key_keys [OF r] assms(2) have "fst ` set uk = set (UNIT_KEY_NAMES c)"
    by auto
  then have k: "fst ` set ?kw = set (init_params c)"
    by (auto simp: dom_update init_params_eq [OF assms(1)])
  from bind_args_keywords_total [OF init_params_distinct k]
  obtain vs where b: "bind_args (init_params c) [] ?kw = Inr vs" by blast
  from bind_args_keywords [OF init_params_distinct b]
  have len: "length vs = length (init_params c)"
    and lk: "\<And>p. p \<in> set (init_params c) \<Longrightarrow> map_of (zip (init_params c) vs) p = map_of ?kw p"
    by auto
  have "\<forall>n\<in>set (UNIT_KEY_NAMES c). map_of (zip (init_params c) vs) n \<noteq> None"
  proof
    fix n assume n: "n \<in> set (UNIT_KEY_NAMES c)"
    then have "n \<in> set (init_params c)" by (simp add: init_params_eq [OF assms(1)])
    moreover from n k have "map_of ?kw n \<noteq> None"
      by (simp add: map_of_eq_None_iff init_params_eq [OF assms(1)])
    ultimately show "map_of (zip (init_params c) vs) n \<noteq> None" using lk by simp
  qed
  from set_attrs_total [OF this, of "[]"] obtain a where
    "set_attrs (UNIT_KEY_NAMES c) (zip (init_params c) vs) [] = Inr a" by blast
  then show ?thesis
    by (simp add: from_package_info_def r construct_def b call_init_zip [OF assms(1) len]
        Package_init_def)
qed

lemma from_package_info_disjoint:
  assumes "from_package_info c package_info = Inr u"
  shows "\<exists>key. unit_key u = Inr key \<and> set (map fst key) \<inter> set (keys_of (metadata u)) = {}"
proof -
  obtain uk md where r: "route c package_info ([], []) = (uk, md)"
    by (cases "route c package_info ([], [])")
  note f = from_package_info_Inr [OF assms r]
  from f(2,3) have "fst ` set (attrs u) = set (UNIT_KEY_NAMES (klass u))" by simp
  from unit_key_of_complete [OF this] obtain key where
    key: "unit_key u = Inr key" "set (map fst key) = set (UNIT_KEY_NAMES c)"
    using f(2) by auto
  from route_metadata_keys [OF r] have "fst ` set md \<inter> set (UNIT_KEY_NAMES c) = {}"
    by auto
  with key f(5) show ?thesis by auto
qed

lemma Distribution_init_Inr:
  assumes "Distribution_init family variant version arch = Inr u"
  shows "\<exists>i. py_join ''-'' [PStr ''ks'', family, variant, version, arch] = Inr i \<and>
           u = \<lparr>klass = Distribution,
                attrs = [(''id'', PStr i), (''family'', family), (''variant'', variant),
                         (''version'', version), (''arch'', arch)],
                metadata = PDict []\<rparr>"
  using assms by (auto simp: Distribution_init_def Package_init_def split: sum.splits)

lemma call_init_metadata:
  assumes "c \<noteq> Distribution" and "call_init c (vals @ [md]) = Inr u"
  shows "klass u = c" and "fst ` set (attrs u) = set (UNIT_KEY_NAMES c)" and "metadata u = md"
proof -
  from call_init_length [OF assms(2)] have len: "length (vals @ [md]) = length (init_params c)" .
  then have lv: "length vals = length (UNIT_KEY_NAMES c)"
    by (simp add: init_params_eq [OF assms(1)])
  from assms(2) call_init_zip [OF assms(1) len]
  have p: "Package_init c (zip (init_params c) (vals @ [md])) = Inr u" by simp
  show "klass u = c" by (rule Package_init_Inr(1) [OF p])
  show "fst ` set (attrs u) = set (UNIT_KEY_NAMES c)" by (rule Package_init_Inr(2) [OF p])
  have "map_of (zip (init_params c) (vals @ [md])) ''metadata'' = Some md"
    using lv metadata_not_key_name [of c]
    by (simp add: init_params_eq [OF assms(1)] map_add_Some_iff map_of_zip_is_None)
  with Package_init_Inr(4) [OF p] show "metadata u = md" by simp
qed

lemma from_package_info_unit_key:
  assumes "from_package_info c package_info = Inr u"
  shows "\<exists>key. unit_key u = Inr key \<and> set (map fst key) = set (UNIT_KEY_NAMES c)"
proof -
  obtain uk md where r: "route c package_info ([], []) = (uk, md)"
    by (cases "route c package_info ([], [])")
  note i = from_package_info_Inr [OF assms r]
  from i(2,3) have "fst ` set (attrs u) = set (UNIT_KEY_NAMES (klass u))" by simp
  from unit_key_of_complete [OF this] obtain key where
    "unit_key u = Inr key" "set (map fst key) = set (UNIT_KEY_NAMES (klass u))" by blast
  with i(2) show ?thesis by simp
qed

lemma route_drops_type:
  assumes "c \<noteq> Errata" and "route c package_info ([], []) = (uk, md)"
  shows "''type'' \<notin> fst ` set md"
proof -
  have "fst ` set md = fst ` set ([] :: pydict) \<union>
     {k \<in> fst ` set package_info.
        k \<notin> set (UNIT_KEY_NAMES c) \<and> (k \<noteq> ''type'' \<or> c = Errata)}"
    by (rule route_metadata_keys [OF assms(2)])
  with assms(1) show ?thesis by simp
qed

lemma route_unit_key_no_type:
  assumes "route c package_info ([], []) = (uk, md)"
  shows "''type'' \<notin> fst ` set uk"
proof -
  have "fst ` set uk =
      fst ` set ([] :: pydict) \<union> (fst ` set package_info \<inter> set (UNIT_KEY_NAMES c))"
    by (rule route_unit_key_keys [OF assms])
  with type_not_key_name [of c] show ?thesis by simp
qed

lemma route_Errata_lookup:
  assumes "route Errata errata_info ([], []) = (uk, md)"
    and "distinct (map fst errata_info)"
    and "k \<notin> set (UNIT_KEY_NAMES Errata)"
  shows "map_of md k = map_of errata_info k"
proof -
  have "map_of md k =
      (case map_of errata_info k of None \<Rightarrow> map_of ([] :: pydict) k | Some v \<Rightarrow> Some v)"
    by (rule route_metadata_lookup [OF assms]) simp
  then show ?thesis by (cases "map_of errata_info k") simp_all
qed

subsection \<open>Missing key fields\<close>

text \<open>\<^verbatim>\<open>Package.__init__\<close> on a mapping that lacks a key-field name raises
  \<^verbatim>\<open>KeyError\<close>.\<close>

lemma Package_init_missing:
  assumes "n \<in> set (UNIT_KEY_NAMES c)" and "map_of local_vars n = None"
  shows "Package_init c local_vars = Inl KeyError"
  using set_attrs_missing [OF assms] by (simp add: Package_init_def)

text \<open>
  The constructors of the six classes always hand \<^verbatim>\<open>Package.__init__\<close> a complete
  mapping (their own \<^verbatim>\<open>locals()\<close>), so through them the \<^verbatim>\<open>KeyError\<close> cannot arise:
  \<^verbatim>\<open>from_package_info\<close> on a mapping that lacks a key field fails earlier, with the
  \<^verbatim>\<open>TypeError\<close> of the constructor call that misses an argument.
\<close>

lemma from_package_info_error:
  assumes "from_package_info c package_info = Inl e"
  shows "e = TypeError"
proof (cases "c = Distribution")
  case True
  with assms from_package_info_Distribution [of package_info] show ?thesis by simp
next
  case nd: False
  obtain uk md where r: "route c package_info ([], []) = (uk, md)"
    by (cases "route c package_info ([], [])")
  let ?kw = "AList.update ''metadata'' (PDict md) uk"
  show ?thesis
  proof (cases "bind_args (init_params c) [] ?kw")
    case (Inl e')
    with assms r have "e' = e" by (simp add: from_package_info_def construct_def)
    with bind_args_error [OF Inl] show ?thesis by simp
  next
    case (Inr vs)
    from bind_args_keywords [OF init_params_distinct Inr]
    have len: "length vs = length (init_params c)" by simp
    have "\<forall>n\<in>set (UNIT_KEY_NAMES c). map_of (zip (init_params c) vs) n \<noteq> None"
    proof
      fix n assume "n \<in> set (UNIT_KEY_NAMES c)"
      then have "n \<in> set (init_params c)" by (simp add: init_params_eq [OF nd])
      with len have "n \<in> fst ` set (zip (init_params c) vs)"
        by (metis map_fst_zip set_map)
      then show "map_of (zip (init_params c) vs) n \<noteq> None"
        by (simp add: map_of_eq_None_iff)
    qed
    from set_attrs_total [OF this, of "[]"] obtain a where
      "set_attrs (UNIT_KEY_NAMES c) (zip (init_params c) vs) [] = Inr a" by blast
    with assms show ?thesis
      by (simp add: from_package_info_def r construct_def Inr call_init_zip [OF nd len]
          Package_init_def)
  qed
qed

lemma from_package_info_missing_key_field:
  assumes "n \<in> set (UNIT_KEY_NAMES c)" and "n \<notin> fst ` set package_info"
  shows "from_package_info c package_info = Inl TypeError"
proof (cases "from_package_info c package_info")
  case (Inl e)
  with from_package_info_error [OF Inl] show ?thesis by simp
next
  case (Inr u)
  obtain uk md where r: "route c package_info ([], []) = (uk, md)"
    by (cases "route c package_info ([], [])")
  note i = from_package_info_Inr [OF Inr r]
  from i(3) assms(1) have "map_of (attrs u) n \<noteq> None"
    by (simp add: map_of_eq_None_iff)
  moreover from route_unit_key_keys [OF r] assms(2) have "n \<notin> fst ` set uk" by simp
  then have "map_of uk n = None" by (simp add: map_of_eq_None_iff)
  ultimately show ?thesis using i(4) [OF assms(1)] by simp
qed

lemma bind_args_missing:
  "p \<in> set ps \<Longrightarrow> map_of kw p = None \<Longrightarrow> bind_args ps [] kw = Inl TypeError"
proof (induction ps arbitrary: kw)
  case Nil
  then show ?case by simp
next
  case (Cons q qs)
  show ?case
  proof (cases "map_of kw q")
    case None
    then show ?thesis by simp
  next
    case (Some v)
    with Cons.prems have "p \<noteq> q" by auto
    with Cons.prems have "p \<in> set qs" "map_of (AList.delete q kw) p = None" by simp_all
    from Cons.IH [OF this] Some show ?thesis by simp
  qed
qed

lemma construct_missing_key_field:
  assumes "c \<noteq> Distribution" and "n \<in> set (UNIT_KEY_NAMES c)" and "n \<notin> fst ` set kw"
  shows "construct c [] kw = Inl TypeError"
proof -
  from assms(2) have "n \<in> set (init_params c)" by (simp add: init_params_eq [OF assms(1)])
  moreover from assms(3) have "map_of kw n = None" by (simp add: map_of_eq_None_iff)
  ultimately have "bind_args (init_params c) [] kw = Inl TypeError" by (rule bind_args_missing)
  then show ?thesis by (simp add: construct_def)
qed

text \<open>
  C8 (amended). Constructing a unit from a field mapping that lacks one of the key-field
  names of the class fails and produces no instance. Through \<^verbatim>\<open>from_package_info\<close>, and
  through the constructor called with the mapping as keywords (for every class but
  \<^verbatim>\<open>Distribution\<close>, which derives its \<^verbatim>\<open>id\<close>), the failure is the \<^verbatim>\<open>TypeError\<close> of the
  constructor call that misses an argument. The lookup error \<^verbatim>\<open>KeyError\<close> arises only
  when \<^verbatim>\<open>Package.__init__\<close> itself receives the incomplete mapping.
\<close>

theorem missing_key_field_fails:
  assumes "n \<in> set (UNIT_KEY_NAMES c)"
  shows "(n \<notin> fst ` set package_info \<longrightarrow> from_package_info c package_info = Inl TypeError)
    \<and> (c \<noteq> Distribution \<and> n \<notin> fst ` set kw \<longrightarrow> construct c [] kw = Inl TypeError)
    \<and> (map_of local_vars n = None \<longrightarrow> Package_init c local_vars = Inl KeyError)"
proof (intro conjI impI)
  assume "n \<notin> fst ` set package_info"
  with assms show "from_package_info c package_info = Inl TypeError"
    by (rule from_package_info_missing_key_field)
next
  assume "c \<noteq> Distribution \<and> n \<notin> fst ` set kw"
  then have "c \<noteq> Distribution" "n \<notin> fst ` set kw" by simp_all
  from this(1) assms this(2) show "construct c [] kw = Inl TypeError"
    by (rule construct_missing_key_field)
next
  assume "map_of local_vars n = None"
  with assms show "Package_init c local_vars = Inl KeyError"
    by (rule Package_init_missing)
qed

theorem missing_key_field_fails_witness:
  "''repo_id'' \<in> set (UNIT_KEY_NAMES PackageGroup)
   \<and> ''repo_id'' \<notin> fst ` set [(''id'', PStr ''core''), (''name'', PStr ''Core'')]
   \<and> from_package_info PackageGroup [(''id'', PStr ''core''), (''name'', PStr ''Core'')] =
       Inl TypeError
   \<and> PackageGroup \<noteq> Distribution
   \<and> ''repo_id'' \<notin> fst ` set [(''id'', PStr ''core''), (''metadata'', PDict [])]
   \<and> construct PackageGroup [] [(''id'', PStr ''core''), (''metadata'', PDict [])] = Inl TypeError
   \<and> map_of [(''id'', PStr ''core''), (''metadata'', PDict [])] ''repo_id'' = None
   \<and> Package_init PackageGroup [(''id'', PStr ''core''), (''metadata'', PDict [])] = Inl KeyError"
  using missing_key_field_fails
    [of "''repo_id''" PackageGroup "[(''id'', PStr ''core''), (''name'', PStr ''Core'')]"
        "[(''id'', PStr ''core''), (''metadata'', PDict [])]"
        "[(''id'', PStr ''core''), (''metadata'', PDict [])]"]
  by simp

text \<open>
  A package group built by \<^verbatim>\<open>from_package_info\<close> from a mapping without \<^verbatim>\<open>repo_id\<close>
  fails with \<^verbatim>\<open>TypeError\<close>, which is not a lookup error.
\<close>

theorem missing_key_field_lookup_error_counterexample:
  "''repo_id'' \<in> set (UNIT_KEY_NAMES PackageGroup)
   \<and> ''repo_id'' \<notin> fst ` set [(''id'', PStr ''core''), (''name'', PStr ''Core'')]
   \<and> from_package_info PackageGroup [(''id'', PStr ''core''), (''name'', PStr ''Core'')] =
       Inl TypeError
   \<and> from_package_info PackageGroup [(''id'', PStr ''core''), (''name'', PStr ''Core'')] \<noteq>
       Inl KeyError"
  by (simp add: from_package_info_def construct_def)

subsection \<open>Unit key and metadata\<close>

text \<open>
  C2 (amended). A unit built by \<^verbatim>\<open>from_package_info\<close> has no name both in its unit key
  and in its metadata, and neither has a \<^verbatim>\<open>Distribution\<close> built by its constructor
  (its metadata starts empty). The constructors of the other five classes store the
  metadata argument as it is: the two are disjoint exactly when the caller's metadata
  holds none of the key-field names of the class.
\<close>

theorem unit_key_metadata_disjoint:
  "(from_package_info c package_info = Inr u \<longrightarrow>
      (\<exists>key. unit_key u = Inr key \<and> set (map fst key) \<inter> set (keys_of (metadata u)) = {}))
   \<and> (Distribution_init family variant version arch = Inr d \<longrightarrow>
      (\<exists>key. unit_key d = Inr key \<and> set (map fst key) \<inter> set (keys_of (metadata d)) = {}))
   \<and> (c' \<noteq> Distribution \<and> call_init c' (vals @ [md]) = Inr w \<longrightarrow>
      metadata w = md \<and>
      (\<exists>key. unit_key w = Inr key \<and>
         (set (map fst key) \<inter> set (keys_of (metadata w)) = {}
            \<longleftrightarrow> set (UNIT_KEY_NAMES c') \<inter> set (keys_of md) = {})))"
proof (intro conjI impI)
  assume "from_package_info c package_info = Inr u"
  then show "\<exists>key. unit_key u = Inr key \<and> set (map fst key) \<inter> set (keys_of (metadata u)) = {}"
    by (rule from_package_info_disjoint)
next
  assume "Distribution_init family variant version arch = Inr d"
  from Distribution_init_Inr [OF this]
  show "\<exists>key. unit_key d = Inr key \<and> set (map fst key) \<inter> set (keys_of (metadata d)) = {}"
    by (auto simp: unit_key_def getattr_def)
next
  assume a: "c' \<noteq> Distribution \<and> call_init c' (vals @ [md]) = Inr w"
  then have nd: "c' \<noteq> Distribution" and ci: "call_init c' (vals @ [md]) = Inr w" by simp_all
  note m = call_init_metadata [OF nd ci]
  show "metadata w = md" by (rule m(3))
  from m(1,2) have "fst ` set (attrs w) = set (UNIT_KEY_NAMES (klass w))" by simp
  from unit_key_of_complete [OF this] obtain key where
    "unit_key w = Inr key" "set (map fst key) = set (UNIT_KEY_NAMES c')"
    using m(1) by auto
  then show "\<exists>key. unit_key w = Inr key \<and>
         (set (map fst key) \<inter> set (keys_of (metadata w)) = {}
            \<longleftrightarrow> set (UNIT_KEY_NAMES c') \<inter> set (keys_of md) = {})"
    by (simp add: m(3))
qed

theorem unit_key_metadata_disjoint_witness:
  "from_package_info Errata [(''id'', PStr ''RHSA-1''), (''severity'', PStr ''low'')] =
     Inr \<lparr>klass = Errata, attrs = [(''id'', PStr ''RHSA-1'')],
          metadata = PDict [(''severity'', PStr ''low'')]\<rparr>
   \<and> (\<exists>key. unit_key \<lparr>klass = Errata, attrs = [(''id'', PStr ''RHSA-1'')],
                       metadata = PDict [(''severity'', PStr ''low'')]\<rparr> = Inr key \<and>
          set (map fst key) \<inter> set (keys_of (PDict [(''severity'', PStr ''low'')])) = {})
   \<and> Distribution_init (PStr ''f20'') (PStr ''server'') (PStr ''1'') (PStr ''x86_64'') =
     Inr \<lparr>klass = Distribution,
          attrs = [(''id'', PStr ''ks-f20-server-1-x86_64''), (''family'', PStr ''f20''),
                   (''variant'', PStr ''server''), (''version'', PStr ''1''),
                   (''arch'', PStr ''x86_64'')],
          metadata = PDict []\<rparr>
   \<and> Errata \<noteq> Distribution
   \<and> call_init Errata ([PStr ''RHSA-1''] @ [PDict [(''severity'', PStr ''low'')]]) =
     Inr \<lparr>klass = Errata, attrs = [(''id'', PStr ''RHSA-1'')],
          metadata = PDict [(''severity'', PStr ''low'')]\<rparr>
   \<and> set (UNIT_KEY_NAMES Errata) \<inter> set (keys_of (PDict [(''severity'', PStr ''low'')])) = {}"
  using unit_key_metadata_disjoint
    [of Errata "[(''id'', PStr ''RHSA-1''), (''severity'', PStr ''low'')]"
        "\<lparr>klass = Errata, attrs = [(''id'', PStr ''RHSA-1'')],
          metadata = PDict [(''severity'', PStr ''low'')]\<rparr>"
        "PStr ''f20''" "PStr ''server''" "PStr ''1''" "PStr ''x86_64''"
        "\<lparr>klass = Distribution,
          attrs = [(''id'', PStr ''ks-f20-server-1-x86_64''), (''family'', PStr ''f20''),
                   (''variant'', PStr ''server''), (''version'', PStr ''1''),
                   (''arch'', PStr ''x86_64'')],
          metadata = PDict []\<rparr>"
        Errata "[PStr ''RHSA-1'']" "PDict [(''severity'', PStr ''low'')]"
        "\<lparr>klass = Errata, attrs = [(''id'', PStr ''RHSA-1'')],
          metadata = PDict [(''severity'', PStr ''low'')]\<rparr>"]
  by (simp add: from_package_info_def construct_def Errata_init_def Package_init_def
      Distribution_init_def py_join_def)

text \<open>
  The direct constructor does not keep the two apart: an RPM built with the metadata
  \<^verbatim>\<open>{'name': 'zsh'}\<close> has \<^verbatim>\<open>name\<close> in its unit key and in its metadata.
\<close>

theorem unit_key_metadata_overlap_counterexample:
  "RPM_init (PStr ''bash'') (PStr ''0'') (PStr ''4.3'') (PStr ''1'') (PStr ''x86_64'')
     (PStr ''sha256'') (PStr ''abc'') (PDict [(''name'', PStr ''zsh'')]) =
     Inr \<lparr>klass = RPM,
          attrs = [(''name'', PStr ''bash''), (''epoch'', PStr ''0''), (''version'', PStr ''4.3''),
                   (''release'', PStr ''1''), (''arch'', PStr ''x86_64''),
                   (''checksumtype'', PStr ''sha256''), (''checksum'', PStr ''abc'')],
          metadata = PDict [(''name'', PStr ''zsh'')]\<rparr>
   \<and> unit_key \<lparr>klass = RPM,
          attrs = [(''name'', PStr ''bash''), (''epoch'', PStr ''0''), (''version'', PStr ''4.3''),
                   (''release'', PStr ''1''), (''arch'', PStr ''x86_64''),
                   (''checksumtype'', PStr ''sha256''), (''checksum'', PStr ''abc'')],
          metadata = PDict [(''name'', PStr ''zsh'')]\<rparr> =
     Inr [(''name'', PStr ''bash''), (''epoch'', PStr ''0''), (''version'', PStr ''4.3''),
          (''release'', PStr ''1''), (''arch'', PStr ''x86_64''),
          (''checksumtype'', PStr ''sha256''), (''checksum'', PStr ''abc'')]
   \<and> ''name'' \<in> set (map fst [(''name'', PStr ''bash''), (''epoch'', PStr ''0''),
          (''version'', PStr ''4.3''), (''release'', PStr ''1''), (''arch'', PStr ''x86_64''),
          (''checksumtype'', PStr ''sha256''), (''checksum'', PStr ''abc'')])
   \<and> ''name'' \<in> set (keys_of (PDict [(''name'', PStr ''zsh'')]))"
  by (simp add: RPM_init_def Package_init_def unit_key_def getattr_def)

subsection \<open>The \<^verbatim>\<open>type\<close> entry\<close>

text \<open>
  C3. In \<^verbatim>\<open>from_package_info\<close> an entry named \<^verbatim>\<open>type\<close> (never a key-field name) is
  dropped for every class but \<^verbatim>\<open>Errata\<close>: it is in neither dictionary the loop builds,
  and in neither the unit key nor the metadata of the unit. For \<^verbatim>\<open>Errata\<close> every entry
  that is not a key field, \<^verbatim>\<open>type\<close> included, reaches the metadata with its value.
\<close>

theorem from_package_info_type_entry:
  "(c \<noteq> Errata \<and> from_package_info c package_info = Inr u \<longrightarrow>
      (\<exists>key. unit_key u = Inr key \<and> ''type'' \<notin> set (map fst key)) \<and>
      ''type'' \<notin> set (keys_of (metadata u)))
   \<and> (distinct (map fst errata_info) \<and> from_package_info Errata errata_info = Inr e \<longrightarrow>
      (\<exists>key. unit_key e = Inr key \<and> ''type'' \<notin> set (map fst key)) \<and>
      (\<exists>md. metadata e = PDict md \<and>
         (\<forall>k. k \<notin> set (UNIT_KEY_NAMES Errata) \<longrightarrow> map_of md k = map_of errata_info k)))
   \<and> (c \<noteq> Errata \<longrightarrow>
      ''type'' \<notin> fst ` set (fst (route c package_info ([], []))) \<and>
      ''type'' \<notin> fst ` set (snd (route c package_info ([], []))))"
proof (intro conjI impI)
  assume a: "c \<noteq> Errata \<and> from_package_info c package_info = Inr u"
  obtain uk md where r: "route c package_info ([], []) = (uk, md)"
    by (cases "route c package_info ([], [])")
  from a have f: "from_package_info c package_info = Inr u" and ne: "c \<noteq> Errata" by simp_all
  from from_package_info_unit_key [OF f] obtain key where
    k: "unit_key u = Inr key" "set (map fst key) = set (UNIT_KEY_NAMES c)" by blast
  from k(2) type_not_key_name [of c] have "''type'' \<notin> set (map fst key)" by simp
  with k(1) show "\<exists>key. unit_key u = Inr key \<and> ''type'' \<notin> set (map fst key)" by blast
  from route_drops_type [OF ne r] from_package_info_Inr(5) [OF f r]
  show "''type'' \<notin> set (keys_of (metadata u))" by simp
next
  assume a: "distinct (map fst errata_info) \<and> from_package_info Errata errata_info = Inr e"
  obtain uk md where r: "route Errata errata_info ([], []) = (uk, md)"
    by (cases "route Errata errata_info ([], [])")
  from a have f: "from_package_info Errata errata_info = Inr e"
    and d: "distinct (map fst errata_info)" by simp_all
  from from_package_info_unit_key [OF f] obtain key where
    k: "unit_key e = Inr key" "set (map fst key) = set (UNIT_KEY_NAMES Errata)" by blast
  from k(2) type_not_key_name [of Errata] have "''type'' \<notin> set (map fst key)" by simp
  with k(1) show "\<exists>key. unit_key e = Inr key \<and> ''type'' \<notin> set (map fst key)" by blast
  from route_Errata_lookup [OF r d] from_package_info_Inr(5) [OF f r]
  show "\<exists>md. metadata e = PDict md \<and>
         (\<forall>k. k \<notin> set (UNIT_KEY_NAMES Errata) \<longrightarrow> map_of md k = map_of errata_info k)"
    by blast
next
  assume ne: "c \<noteq> Errata"
  obtain uk md where r: "route c package_info ([], []) = (uk, md)"
    by (cases "route c package_info ([], [])")
  from route_unit_key_no_type [OF r]
  show "''type'' \<notin> fst ` set (fst (route c package_info ([], [])))" by (simp add: r)
  from route_drops_type [OF ne r]
  show "''type'' \<notin> fst ` set (snd (route c package_info ([], [])))" by (simp add: r)
qed

theorem from_package_info_type_entry_witness:
  "PackageGroup \<noteq> Errata
   \<and> from_package_info PackageGroup
       [(''type'', PStr ''package_group''), (''id'', PStr ''core''), (''repo_id'', PStr ''f20''),
        (''name'', PStr ''Core'')] =
     Inr \<lparr>klass = PackageGroup, attrs = [(''id'', PStr ''core''), (''repo_id'', PStr ''f20'')],
          metadata = PDict [(''name'', PStr ''Core'')]\<rparr>
   \<and> ''type'' \<notin> set (keys_of (PDict [(''name'', PStr ''Core'')]))
   \<and> distinct (map fst [(''type'', PStr ''security''), (''id'', PStr ''RHSA-1'')])
   \<and> from_package_info Errata [(''type'', PStr ''security''), (''id'', PStr ''RHSA-1'')] =
     Inr \<lparr>klass = Errata, attrs = [(''id'', PStr ''RHSA-1'')],
          metadata = PDict [(''type'', PStr ''security'')]\<rparr>
   \<and> map_of [(''type'', PStr ''security'')] ''type'' = Some (PStr ''security'')"
  using from_package_info_type_entry
    [of PackageGroup
        "[(''type'', PStr ''package_group''), (''id'', PStr ''core''),
          (''repo_id'', PStr ''f20''), (''name'', PStr ''Core'')]"
        "\<lparr>klass = PackageGroup, attrs = [(''id'', PStr ''core''), (''repo_id'', PStr ''f20'')],
          metadata = PDict [(''name'', PStr ''Core'')]\<rparr>"
        "[(''type'', PStr ''security''), (''id'', PStr ''RHSA-1'')]"
        "\<lparr>klass = Errata, attrs = [(''id'', PStr ''RHSA-1'')],
          metadata = PDict [(''type'', PStr ''security'')]\<rparr>"]
  by (simp add: from_package_info_def construct_def Errata_init_def PackageGroup_init_def
      Package_init_def)

section \<open>Properties of versioned packages\<close>

lemma cmp_seq_eq_iff:
  assumes "\<And>x y. c x y = 0 \<longleftrightarrow> x = y"
  shows "cmp_seq c xs ys = 0 \<longleftrightarrow> xs = ys"
proof (induction xs arbitrary: ys)
  case Nil
  then show ?case by (cases ys) simp_all
next
  case (Cons x xs)
  then show ?case by (cases ys) (simp_all add: assms)
qed

lemma cmp_char_eq_iff: "cmp_char a b = 0 \<longleftrightarrow> a = b"
  by (simp add: cmp_char_def)

lemma cmp_str_eq_iff: "cmp_str s t = 0 \<longleftrightarrow> s = t"
  unfolding cmp_str_def by (rule cmp_seq_eq_iff) (rule cmp_char_eq_iff)

lemma cmp_tuple_eq_iff: "cmp_tuple a b = 0 \<longleftrightarrow> a = b"
  unfolding cmp_tuple_def by (rule cmp_seq_eq_iff) (rule cmp_str_eq_iff)

lemma complete_version_of_attrs:
  assumes "versioned (klass a)"
    and "getattr a ''epoch'' = Inr e" and "getattr a ''version'' = Inr v"
    and "getattr a ''release'' = Inr r"
  shows "complete_version a = Inr [e, v, r]"
proof -
  from assms(1) consider "klass a = DRPM" | "klass a = RPM" by (auto simp: versioned_def)
  then show ?thesis
    by cases (simp_all add: complete_version_def versioned_def assms(2-4))
qed

text \<open>
  C4. For a versioned unit (RPM or DRPM) the serialized complete version is the encoding
  of its \<^verbatim>\<open>epoch\<close>, \<^verbatim>\<open>version\<close> and \<^verbatim>\<open>release\<close> attributes, in this order, and of
  nothing else. Two versioned units compare exactly as these two tuples compare under
  \<^verbatim>\<open>cmp\<close>: the result is \<open>0\<close> if and only if the tuples are equal, and in particular
  whenever the two units agree on the three attributes, whatever their names, archs,
  checksums, file names and metadata are.
\<close>

theorem VersionedPackage_cmp_serialized:
  assumes "versioned (klass a)" and "versioned (klass b)"
    and "getattr a ''epoch'' = Inr ea" and "getattr a ''version'' = Inr va"
    and "getattr a ''release'' = Inr ra"
    and "getattr b ''epoch'' = Inr eb" and "getattr b ''version'' = Inr vb"
    and "getattr b ''release'' = Inr rb"
  shows "complete_version_serialized encode a = encode_all encode [ea, va, ra]
    \<and> complete_version_serialized encode b = encode_all encode [eb, vb, rb]
    \<and> (\<forall>ta tb. encode_all encode [ea, va, ra] = Inr ta \<and>
                encode_all encode [eb, vb, rb] = Inr tb \<longrightarrow>
          VersionedPackage_cmp encode a b = Inr (cmp_tuple ta tb)
          \<and> (VersionedPackage_cmp encode a b = Inr 0 \<longleftrightarrow> ta = tb))
    \<and> (\<forall>t. ea = eb \<and> va = vb \<and> ra = rb \<and> encode_all encode [ea, va, ra] = Inr t \<longrightarrow>
          VersionedPackage_cmp encode a b = Inr 0)"
proof -
  have sa: "complete_version_serialized encode a = encode_all encode [ea, va, ra]"
    unfolding complete_version_serialized_def
    by (simp only: complete_version_of_attrs [OF assms(1,3,4,5)] sum.case)
  have sb: "complete_version_serialized encode b = encode_all encode [eb, vb, rb]"
    unfolding complete_version_serialized_def
    by (simp only: complete_version_of_attrs [OF assms(2,6,7,8)] sum.case)
  have c: "VersionedPackage_cmp encode a b = Inr (cmp_tuple ta tb)"
    if "encode_all encode [ea, va, ra] = Inr ta" "encode_all encode [eb, vb, rb] = Inr tb"
    for ta tb
    unfolding VersionedPackage_cmp_def sa sb by (simp only: that sum.case)
  have z: "VersionedPackage_cmp encode a b = Inr 0 \<longleftrightarrow> ta = tb"
    if "encode_all encode [ea, va, ra] = Inr ta" "encode_all encode [eb, vb, rb] = Inr tb"
    for ta tb
    by (simp add: c [OF that] cmp_tuple_eq_iff)
  have s: "VersionedPackage_cmp encode a b = Inr 0"
    if "ea = eb \<and> va = vb \<and> ra = rb \<and> encode_all encode [ea, va, ra] = Inr t" for t
  proof -
    from that have "encode_all encode [ea, va, ra] = Inr t" "encode_all encode [eb, vb, rb] = Inr t"
      by blast+
    from z [OF this] show ?thesis by simp
  qed
  from sa sb c z s show ?thesis by blast
qed

theorem VersionedPackage_cmp_serialized_witness:
  "versioned RPM \<and> versioned DRPM
   \<and> complete_version_serialized (\<lambda>v. case v of PStr s \<Rightarrow> Inr s | _ \<Rightarrow> Inl TypeError)
     \<lparr>klass = RPM,
      attrs = [(''name'', PStr ''bash''), (''epoch'', PStr ''0''), (''version'', PStr ''4.3''),
               (''release'', PStr ''1''), (''arch'', PStr ''x86_64''),
               (''checksumtype'', PStr ''sha256''), (''checksum'', PStr ''abc'')],
      metadata = PDict []\<rparr> = Inr [''0'', ''4.3'', ''1'']
   \<and> complete_version_serialized (\<lambda>v. case v of PStr s \<Rightarrow> Inr s | _ \<Rightarrow> Inl TypeError)
     \<lparr>klass = DRPM,
      attrs = [(''epoch'', PStr ''0''), (''version'', PStr ''4.3''), (''release'', PStr ''1''),
               (''filename'', PStr ''zsh.drpm''), (''checksumtype'', PStr ''md5''),
               (''checksum'', PStr ''def'')],
      metadata = PDict [(''summary'', PStr ''shell'')]\<rparr> = Inr [''0'', ''4.3'', ''1'']
   \<and> VersionedPackage_cmp (\<lambda>v. case v of PStr s \<Rightarrow> Inr s | _ \<Rightarrow> Inl TypeError)
     \<lparr>klass = RPM,
      attrs = [(''name'', PStr ''bash''), (''epoch'', PStr ''0''), (''version'', PStr ''4.3''),
               (''release'', PStr ''1''), (''arch'', PStr ''x86_64''),
               (''checksumtype'', PStr ''sha256''), (''checksum'', PStr ''abc'')],
      metadata = PDict []\<rparr>
     \<lparr>klass = DRPM,
      attrs = [(''epoch'', PStr ''0''), (''version'', PStr ''4.3''), (''release'', PStr ''1''),
               (''filename'', PStr ''zsh.drpm''), (''checksumtype'', PStr ''md5''),
               (''checksum'', PStr ''def'')],
      metadata = PDict [(''summary'', PStr ''shell'')]\<rparr> = Inr 0"
  using VersionedPackage_cmp_serialized
    [of "\<lparr>klass = RPM,
          attrs = [(''name'', PStr ''bash''), (''epoch'', PStr ''0''), (''version'', PStr ''4.3''),
                   (''release'', PStr ''1''), (''arch'', PStr ''x86_64''),
                   (''checksumtype'', PStr ''sha256''), (''checksum'', PStr ''abc'')],
          metadata = PDict []\<rparr>"
        "\<lparr>klass = DRPM,
          attrs = [(''epoch'', PStr ''0''), (''version'', PStr ''4.3''), (''release'', PStr ''1''),
                   (''filename'', PStr ''zsh.drpm''), (''checksumtype'', PStr ''md5''),
                   (''checksum'', PStr ''def'')],
          metadata = PDict [(''summary'', PStr ''shell'')]\<rparr>"
        "PStr ''0''" "PStr ''4.3''" "PStr ''1''" "PStr ''0''" "PStr ''4.3''" "PStr ''1''"
        "\<lambda>v. case v of PStr s \<Rightarrow> Inr s | _ \<Rightarrow> Inl TypeError"]
  by (simp add: versioned_def getattr_def complete_version_serialized_def complete_version_def
      cmp_tuple_eq_iff)

lemma getattrs_filter:
  "getattrs u names = Inr vals \<Longrightarrow>
   getattrs u (filter P names) = Inr (map snd (filter (\<lambda>(n, v). P n) (zip names vals)))"
proof (induction names arbitrary: vals)
  case Nil
  then show ?case by simp
next
  case (Cons n ns)
  then obtain v vs where v: "getattr u n = Inr v" and r: "getattrs u ns = Inr vs"
    and vals: "vals = v # vs"
    by (auto split: sum.splits)
  from Cons.IH [OF r] v show ?case by (simp add: vals)
qed

text \<open>
  C5. For a versioned unit with all its key fields, \<^verbatim>\<open>key_string_without_version\<close> is
  the dash-join of the key-field values in declared order, without \<^verbatim>\<open>epoch\<close>,
  \<^verbatim>\<open>version\<close>, \<^verbatim>\<open>release\<close>, \<^verbatim>\<open>checksum\<close> and \<^verbatim>\<open>checksumtype\<close>, followed by the
  type tag: \<^verbatim>\<open>name-arch-rpm\<close> for an RPM, \<^verbatim>\<open>filename-drpm\<close> for a DRPM. Two RPMs with
  the same name and arch give the same result.
\<close>

theorem key_string_without_version_value:
  "(versioned (klass u) \<and> getattrs u (UNIT_KEY_NAMES (klass u)) = Inr vals \<longrightarrow>
      key_string_without_version u =
        py_join ''-''
          (map snd
             (filter (\<lambda>(n, v). n \<notin> set [''epoch'', ''version'', ''release'', ''checksum'',
                                            ''checksumtype''])
                (zip (UNIT_KEY_NAMES (klass u)) vals))
           @ [PStr (TYPE_tag (klass u))]))
   \<and> (klass r = RPM \<and> getattr r ''name'' = Inr (PStr name) \<and> getattr r ''arch'' = Inr (PStr arch)
        \<longrightarrow> key_string_without_version r = Inr (name @ ''-'' @ arch @ ''-rpm''))
   \<and> (klass d = DRPM \<and> getattr d ''filename'' = Inr (PStr filename)
        \<longrightarrow> key_string_without_version d = Inr (filename @ ''-drpm''))
   \<and> (klass r1 = RPM \<and> klass r2 = RPM \<and> getattr r1 ''name'' = getattr r2 ''name'' \<and>
        getattr r1 ''arch'' = getattr r2 ''arch''
        \<longrightarrow> key_string_without_version r1 = key_string_without_version r2)"
proof (intro conjI impI)
  assume "versioned (klass u) \<and> getattrs u (UNIT_KEY_NAMES (klass u)) = Inr vals"
  then have v: "versioned (klass u)" and g: "getattrs u (UNIT_KEY_NAMES (klass u)) = Inr vals"
    by simp_all
  show "key_string_without_version u =
        py_join ''-''
          (map snd
             (filter (\<lambda>(n, v). n \<notin> set [''epoch'', ''version'', ''release'', ''checksum'',
                                            ''checksumtype''])
                (zip (UNIT_KEY_NAMES (klass u)) vals))
           @ [PStr (TYPE_tag (klass u))])"
    unfolding key_string_without_version_def
    by (simp only: v getattrs_filter [OF g] not_True_eq_False if_False sum.case)
next
  assume "klass r = RPM \<and> getattr r ''name'' = Inr (PStr name) \<and> getattr r ''arch'' = Inr (PStr arch)"
  then show "key_string_without_version r = Inr (name @ ''-'' @ arch @ ''-rpm'')"
    by (simp add: key_string_without_version_def versioned_def py_join_def)
next
  assume "klass d = DRPM \<and> getattr d ''filename'' = Inr (PStr filename)"
  then show "key_string_without_version d = Inr (filename @ ''-drpm'')"
    by (simp add: key_string_without_version_def versioned_def py_join_def)
next
  assume "klass r1 = RPM \<and> klass r2 = RPM \<and> getattr r1 ''name'' = getattr r2 ''name'' \<and>
        getattr r1 ''arch'' = getattr r2 ''arch''"
  then show "key_string_without_version r1 = key_string_without_version r2"
    by (simp add: key_string_without_version_def versioned_def split: sum.splits)
qed

theorem key_string_without_version_value_witness:
  "versioned (klass \<lparr>klass = RPM,
      attrs = [(''name'', PStr ''bash''), (''epoch'', PStr ''0''), (''version'', PStr ''4.3''),
               (''release'', PStr ''1''), (''arch'', PStr ''x86_64''),
               (''checksumtype'', PStr ''sha256''), (''checksum'', PStr ''abc'')],
      metadata = PDict []\<rparr>)
   \<and> getattrs \<lparr>klass = RPM,
      attrs = [(''name'', PStr ''bash''), (''epoch'', PStr ''0''), (''version'', PStr ''4.3''),
               (''release'', PStr ''1''), (''arch'', PStr ''x86_64''),
               (''checksumtype'', PStr ''sha256''), (''checksum'', PStr ''abc'')],
      metadata = PDict []\<rparr> (UNIT_KEY_NAMES RPM) =
     Inr [PStr ''bash'', PStr ''0'', PStr ''4.3'', PStr ''1'', PStr ''x86_64'', PStr ''sha256'',
          PStr ''abc'']
   \<and> key_string_without_version \<lparr>klass = RPM,
      attrs = [(''name'', PStr ''bash''), (''epoch'', PStr ''0''), (''version'', PStr ''4.3''),
               (''release'', PStr ''1''), (''arch'', PStr ''x86_64''),
               (''checksumtype'', PStr ''sha256''), (''checksum'', PStr ''abc'')],
      metadata = PDict []\<rparr> = Inr ''bash-x86_64-rpm''
   \<and> key_string_without_version \<lparr>klass = DRPM,
      attrs = [(''epoch'', PStr ''0''), (''version'', PStr ''4.3''), (''release'', PStr ''1''),
               (''filename'', PStr ''bash.drpm''), (''checksumtype'', PStr ''sha256''),
               (''checksum'', PStr ''abc'')],
      metadata = PDict []\<rparr> = Inr ''bash.drpm-drpm''
   \<and> key_string_without_version \<lparr>klass = RPM,
      attrs = [(''name'', PStr ''bash''), (''epoch'', PStr ''1''), (''version'', PStr ''5.0''),
               (''release'', PStr ''2''), (''arch'', PStr ''x86_64''),
               (''checksumtype'', PStr ''md5''), (''checksum'', PStr ''def'')],
      metadata = PDict []\<rparr> = Inr ''bash-x86_64-rpm''"
  using key_string_without_version_value
    [of "\<lparr>klass = RPM,
          attrs = [(''name'', PStr ''bash''), (''epoch'', PStr ''0''), (''version'', PStr ''4.3''),
                   (''release'', PStr ''1''), (''arch'', PStr ''x86_64''),
                   (''checksumtype'', PStr ''sha256''), (''checksum'', PStr ''abc'')],
          metadata = PDict []\<rparr>"
        "[PStr ''bash'', PStr ''0'', PStr ''4.3'', PStr ''1'', PStr ''x86_64'', PStr ''sha256'',
          PStr ''abc'']"
        "\<lparr>klass = RPM,
          attrs = [(''name'', PStr ''bash''), (''epoch'', PStr ''0''), (''version'', PStr ''4.3''),
                   (''release'', PStr ''1''), (''arch'', PStr ''x86_64''),
                   (''checksumtype'', PStr ''sha256''), (''checksum'', PStr ''abc'')],
          metadata = PDict []\<rparr>"
        "''bash''" "''x86_64''"
        "\<lparr>klass = DRPM,
          attrs = [(''epoch'', PStr ''0''), (''version'', PStr ''4.3''), (''release'', PStr ''1''),
                   (''filename'', PStr ''bash.drpm''), (''checksumtype'', PStr ''sha256''),
                   (''checksum'', PStr ''abc'')],
          metadata = PDict []\<rparr>"
        "''bash.drpm''"
        "\<lparr>klass = RPM,
          attrs = [(''name'', PStr ''bash''), (''epoch'', PStr ''0''), (''version'', PStr ''4.3''),
                   (''release'', PStr ''1''), (''arch'', PStr ''x86_64''),
                   (''checksumtype'', PStr ''sha256''), (''checksum'', PStr ''abc'')],
          metadata = PDict []\<rparr>"
        "\<lparr>klass = RPM,
          attrs = [(''name'', PStr ''bash''), (''epoch'', PStr ''1''), (''version'', PStr ''5.0''),
                   (''release'', PStr ''2''), (''arch'', PStr ''x86_64''),
                   (''checksumtype'', PStr ''md5''), (''checksum'', PStr ''def'')],
          metadata = PDict []\<rparr>"]
  by (simp add: key_string_without_version_def versioned_def getattr_def py_join_def)

section \<open>Properties of distributions\<close>

text \<open>
  C6. A \<^verbatim>\<open>Distribution\<close> built from family, variant, version and arch has as \<^verbatim>\<open>id\<close> the
  dash-join of \<^verbatim>\<open>ks\<close> and the four values, and its \<^verbatim>\<open>relative_path\<close> is that id; on
  four strings the constructor succeeds with the id \<^verbatim>\<open>ks-family-variant-version-arch\<close>.
\<close>

theorem Distribution_id_relative_path:
  "(Distribution_init family variant version arch = Inr u \<longrightarrow>
      (\<exists>i. py_join ''-'' [PStr ''ks'', family, variant, version, arch] = Inr i \<and>
           getattr u ''id'' = Inr (PStr i) \<and>
           (\<exists>key. unit_key u = Inr key \<and> map_of key ''id'' = Some (PStr i)) \<and>
           Distribution_relative_path u = Inr (PStr i)))
   \<and> (\<exists>d. Distribution_init (PStr f) (PStr v) (PStr n) (PStr a) = Inr d \<and>
           getattr d ''id'' = Inr (PStr (''ks-'' @ f @ ''-'' @ v @ ''-'' @ n @ ''-'' @ a)) \<and>
           Distribution_relative_path d =
             Inr (PStr (''ks-'' @ f @ ''-'' @ v @ ''-'' @ n @ ''-'' @ a)))"
proof (intro conjI impI)
  assume "Distribution_init family variant version arch = Inr u"
  from Distribution_init_Inr [OF this] obtain i where
    i: "py_join ''-'' [PStr ''ks'', family, variant, version, arch] = Inr i"
    and u: "u = \<lparr>klass = Distribution,
                attrs = [(''id'', PStr i), (''family'', family), (''variant'', variant),
                         (''version'', version), (''arch'', arch)],
                metadata = PDict []\<rparr>" by blast
  have "getattr u ''id'' = Inr (PStr i)" by (simp add: u getattr_def)
  moreover have "\<exists>key. unit_key u = Inr key \<and> map_of key ''id'' = Some (PStr i)"
    by (simp add: u unit_key_def getattr_def)
  moreover have "Distribution_relative_path u = Inr (PStr i)"
    by (simp add: u Distribution_relative_path_def getattr_def)
  ultimately show "\<exists>i. py_join ''-'' [PStr ''ks'', family, variant, version, arch] = Inr i \<and>
           getattr u ''id'' = Inr (PStr i) \<and>
           (\<exists>key. unit_key u = Inr key \<and> map_of key ''id'' = Some (PStr i)) \<and>
           Distribution_relative_path u = Inr (PStr i)"
    using i by blast
next
  show "\<exists>d. Distribution_init (PStr f) (PStr v) (PStr n) (PStr a) = Inr d \<and>
           getattr d ''id'' = Inr (PStr (''ks-'' @ f @ ''-'' @ v @ ''-'' @ n @ ''-'' @ a)) \<and>
           Distribution_relative_path d =
             Inr (PStr (''ks-'' @ f @ ''-'' @ v @ ''-'' @ n @ ''-'' @ a))"
    by (simp add: Distribution_init_def Package_init_def py_join_def
        Distribution_relative_path_def getattr_def)
qed

theorem Distribution_id_relative_path_witness:
  "Distribution_init (PStr ''f20'') (PStr ''server'') (PStr ''1'') (PStr ''x86_64'') =
     Inr \<lparr>klass = Distribution,
          attrs = [(''id'', PStr ''ks-f20-server-1-x86_64''), (''family'', PStr ''f20''),
                   (''variant'', PStr ''server''), (''version'', PStr ''1''),
                   (''arch'', PStr ''x86_64'')],
          metadata = PDict []\<rparr>
   \<and> py_join ''-'' [PStr ''ks'', PStr ''f20'', PStr ''server'', PStr ''1'', PStr ''x86_64''] =
     Inr ''ks-f20-server-1-x86_64''
   \<and> Distribution_relative_path
        \<lparr>klass = Distribution,
          attrs = [(''id'', PStr ''ks-f20-server-1-x86_64''), (''family'', PStr ''f20''),
                   (''variant'', PStr ''server''), (''version'', PStr ''1''),
                   (''arch'', PStr ''x86_64'')],
          metadata = PDict []\<rparr> = Inr (PStr ''ks-f20-server-1-x86_64'')"
  using Distribution_id_relative_path
    [of "PStr ''f20''" "PStr ''server''" "PStr ''1''" "PStr ''x86_64''"
        "\<lparr>klass = Distribution,
          attrs = [(''id'', PStr ''ks-f20-server-1-x86_64''), (''family'', PStr ''f20''),
                   (''variant'', PStr ''server''), (''version'', PStr ''1''),
                   (''arch'', PStr ''x86_64'')],
          metadata = PDict []\<rparr>"
        "''f20''" "''server''" "''1''" "''x86_64''"]
  by (simp add: Distribution_init_def Package_init_def py_join_def)

section \<open>Properties of \<^verbatim>\<open>process_download_reports\<close>\<close>

lemma file_descriptor_cong:
  assumes a: "attrs u' = attrs u" and k: "klass u' = klass u"
  shows "file_descriptor sp u' r = file_descriptor sp u r"
  unfolding file_descriptor_def getattr_def a k by (rule refl)

lemma unit_key_loop_cong:
  "attrs u' = attrs u \<Longrightarrow> unit_key_loop u' names key = unit_key_loop u names key"
  by (induction names arbitrary: key) (simp_all add: getattr_def split: option.splits)

lemma unit_key_cong:
  assumes "attrs u' = attrs u" and "klass u' = klass u"
  shows "unit_key u' = unit_key u"
  unfolding unit_key_def assms(2) by (rule unit_key_loop_cong [OF assms(1)])

lemma file_descriptor_total:
  assumes "getattr u ''id'' = Inr (PStr i)"
    and "getitem (data r) ''checksum'' = Inr c"
    and "getitem (data r) ''checksumtype'' = Inr t"
    and "getitem (data r) ''relativepath'' = Inr (PStr p)"
  shows "\<exists>d. file_descriptor sp u r = Inr d"
proof -
  obtain q where q: "os_path_join sp [PStr i, PStr (dirname p)] = Inr q"
    by (cases "os_path_join sp [PStr i, PStr (dirname p)]") (simp_all split: if_splits)
  show ?thesis unfolding file_descriptor_def
    by (simp only: assms q sum.case os_path_basename.simps os_path_dirname.simps) blast
qed

lemma append_reports_prefix:
  "append_reports sp u files reports = (files', err) \<Longrightarrow> \<exists>new. files' = files @ new"
proof (induction reports arbitrary: files)
  case Nil
  then show ?case by simp
next
  case (Cons r rs)
  show ?case
  proof (cases "file_descriptor sp u r")
    case (Inl e)
    with Cons.prems show ?thesis by simp
  next
    case (Inr d)
    with Cons.prems have "append_reports sp u (files @ [d]) rs = (files', err)" by simp
    from Cons.IH [OF this] obtain new where "files' = (files @ [d]) @ new" by blast
    then have "files' = files @ (d # new)" by simp
    then show ?thesis by blast
  qed
qed

lemma append_reports_all:
  "\<forall>r\<in>set reports. \<exists>d. file_descriptor sp u r = Inr d \<Longrightarrow>
   append_reports sp u files reports =
     (files @ map (\<lambda>r. projr (file_descriptor sp u r)) reports, None)"
proof (induction reports arbitrary: files)
  case Nil
  then show ?case by simp
next
  case (Cons r rs)
  then obtain d where d: "file_descriptor sp u r = Inr d" by auto
  from Cons.prems have "\<forall>r\<in>set rs. \<exists>d. file_descriptor sp u r = Inr d" by simp
  from Cons.IH [OF this, of "files @ [d]"] d show ?case by simp
qed

lemma process_download_reports_absent:
  assumes "klass u = Distribution" and "metadata u = PDict md" and "map_of md ''files'' = None"
  shows "process_download_reports sp u reports =
     (u\<lparr>metadata := PDict (AList.update ''files''
                           (PList (fst (append_reports sp u [] reports))) md)\<rparr>,
      snd (append_reports sp u [] reports))"
  using assms by (simp add: process_download_reports_def split: prod.splits)

lemma process_download_reports_list:
  assumes "klass u = Distribution" and "metadata u = PDict md"
    and "map_of md ''files'' = Some (PList fs)"
  shows "process_download_reports sp u reports =
     (u\<lparr>metadata := PDict (AList.update ''files''
                           (PList (fst (append_reports sp u fs reports))) md)\<rparr>,
      snd (append_reports sp u fs reports))"
  using assms by (simp add: process_download_reports_def split: prod.splits)

lemma process_download_reports_not_Distribution:
  "klass u \<noteq> Distribution \<Longrightarrow> process_download_reports sp u reports = (u, Some AttributeError)"
  by (simp add: process_download_reports_def)

lemma process_download_reports_not_dict:
  "\<forall>md. metadata u \<noteq> PDict md \<Longrightarrow> fst (process_download_reports sp u reports) = u"
  by (cases "metadata u") (simp_all add: process_download_reports_def)

lemma process_download_reports_not_list:
  "metadata u = PDict md \<Longrightarrow> map_of md ''files'' = Some v \<Longrightarrow> \<forall>fs. v \<noteq> PList fs \<Longrightarrow>
   fst (process_download_reports sp u reports) = u"
  by (cases v) (simp_all add: process_download_reports_def)

lemma process_download_reports_shape:
  assumes "process_download_reports sp u reports = (u', err)"
  shows "u' = u \<or>
     (\<exists>md fs new. klass u = Distribution \<and> metadata u = PDict md \<and>
        (map_of md ''files'' = None \<and> fs = [] \<or> map_of md ''files'' = Some (PList fs)) \<and>
        u' = u\<lparr>metadata := PDict (AList.update ''files'' (PList (fs @ new)) md)\<rparr>)"
proof (cases "klass u = Distribution")
  case False
  from process_download_reports_not_Distribution [OF this, of sp reports] assms
  show ?thesis by simp
next
  case k: True
  show ?thesis
  proof (cases "\<exists>md. metadata u = PDict md")
    case False
    then have "\<forall>md. metadata u \<noteq> PDict md" by simp
    from process_download_reports_not_dict [OF this, of sp reports] assms
    show ?thesis by simp
  next
    case True
    then obtain md where m: "metadata u = PDict md" by blast
    show ?thesis
    proof (cases "map_of md ''files''")
      case None
      obtain files e where a: "append_reports sp u [] reports = (files, e)"
        by (cases "append_reports sp u [] reports")
      from append_reports_prefix [OF a] obtain new where n: "files = [] @ new" by blast
      from process_download_reports_absent [OF k m None, of sp reports] a assms
      have "u' = u\<lparr>metadata := PDict (AList.update ''files'' (PList ([] @ new)) md)\<rparr>"
        by (simp add: n)
      with k m None show ?thesis by blast
    next
      case (Some v)
      show ?thesis
      proof (cases "\<exists>fs. v = PList fs")
        case False
        then have "\<forall>fs. v \<noteq> PList fs" by simp
        from process_download_reports_not_list [OF m Some this, of sp reports] assms
        show ?thesis by simp
      next
        case True
        then obtain fs where s: "map_of md ''files'' = Some (PList fs)" using Some by blast
        obtain files e where a: "append_reports sp u fs reports = (files, e)"
          by (cases "append_reports sp u fs reports")
        from append_reports_prefix [OF a] obtain new where n: "files = fs @ new" by blast
        from process_download_reports_list [OF k m s, of sp reports] a assms
        have "u' = u\<lparr>metadata := PDict (AList.update ''files'' (PList (fs @ new)) md)\<rparr>"
          by (simp add: n)
        with k m s show ?thesis by blast
      qed
    qed
  qed
qed

text \<open>A \<^verbatim>\<open>Distribution\<close> fresh from its constructor has a string \<^verbatim>\<open>id\<close> and empty
  metadata.\<close>

lemma Distribution_init_ready:
  assumes "Distribution_init family variant version arch = Inr u"
  shows "klass u = Distribution \<and> (\<exists>i. getattr u ''id'' = Inr (PStr i)) \<and> metadata u = PDict []"
proof -
  from Distribution_init_Inr [OF assms] obtain i where
    "u = \<lparr>klass = Distribution,
          attrs = [(''id'', PStr i), (''family'', family), (''variant'', variant),
                   (''version'', version), (''arch'', arch)],
          metadata = PDict []\<rparr>" by blast
  then show ?thesis by (simp add: getattr_def)
qed

text \<open>
  C7. Let \<open>u\<close> be a \<^verbatim>\<open>Distribution\<close> with a string \<^verbatim>\<open>id\<close> whose metadata is a dictionary
  in which \<^verbatim>\<open>files\<close> is absent (\<open>old\<close> is empty) or the list \<open>old\<close>, and let every
  report carry \<^verbatim>\<open>checksum\<close>, \<^verbatim>\<open>checksumtype\<close> and a string \<^verbatim>\<open>relativepath\<close> in its
  data. Then \<^verbatim>\<open>process_download_reports\<close> returns without exception and leaves
  \<^verbatim>\<open>metadata["files"]\<close> as \<open>old\<close> followed by one descriptor per report, in order.
  A second call with the same reports appends the same descriptors again, so the
  method is not idempotent.
\<close>

theorem process_download_reports_appends:
  assumes k: "klass u = Distribution"
    and i: "getattr u ''id'' = Inr (PStr i)"
    and m: "metadata u = PDict md"
    and f: "map_of md ''files'' = None \<and> old = [] \<or> map_of md ''files'' = Some (PList old)"
    and r: "\<forall>r\<in>set reports. \<exists>c t p.
              getitem (data r) ''checksum'' = Inr c \<and>
              getitem (data r) ''checksumtype'' = Inr t \<and>
              getitem (data r) ''relativepath'' = Inr (PStr p)"
  shows "\<exists>ds md1 md2 u1 u2.
      length ds = length reports
    \<and> list_all2 (\<lambda>r d. file_descriptor sp u r = Inr d) reports ds
    \<and> process_download_reports sp u reports = (u1, None)
    \<and> metadata u1 = PDict md1 \<and> map_of md1 ''files'' = Some (PList (old @ ds))
    \<and> process_download_reports sp u1 reports = (u2, None)
    \<and> metadata u2 = PDict md2 \<and> map_of md2 ''files'' = Some (PList (old @ ds @ ds))
    \<and> (reports \<noteq> [] \<longrightarrow> u2 \<noteq> u1)"
proof -
  define ds where "ds = map (\<lambda>r. projr (file_descriptor sp u r)) reports"
  define md1 where "md1 = AList.update ''files'' (PList (old @ ds)) md"
  define u1 where "u1 = u\<lparr>metadata := PDict md1\<rparr>"
  define md2 where "md2 = AList.update ''files'' (PList (old @ ds @ ds)) md1"
  define u2 where "u2 = u1\<lparr>metadata := PDict md2\<rparr>"
  have tot: "\<forall>r\<in>set reports. \<exists>d. file_descriptor sp u r = Inr d"
    using r file_descriptor_total [OF i] by blast
  have len: "length ds = length reports" by (simp add: ds_def)
  have la: "list_all2 (\<lambda>r d. file_descriptor sp u r = Inr d) reports ds"
    unfolding ds_def list_all2_map2 list_all2_same using tot by auto
  have ar: "append_reports sp u files reports = (files @ ds, None)" for files
    unfolding ds_def by (rule append_reports_all [OF tot])
  have p1: "process_download_reports sp u reports = (u1, None)"
    using f
  proof
    assume a: "map_of md ''files'' = None \<and> old = []"
    then have "map_of md ''files'' = None" by simp
    from process_download_reports_absent [OF k m this, of sp reports] a
    show ?thesis by (simp add: ar u1_def md1_def)
  next
    assume "map_of md ''files'' = Some (PList old)"
    from process_download_reports_list [OF k m this, of sp reports]
    show ?thesis by (simp add: ar u1_def md1_def)
  qed
  have k1: "klass u1 = Distribution" and a1: "attrs u1 = attrs u"
    and m1: "metadata u1 = PDict md1"
    by (simp_all add: u1_def k)
  have f1: "map_of md1 ''files'' = Some (PList (old @ ds))"
    by (simp add: md1_def update_conv')
  have fd: "file_descriptor sp u1 r = file_descriptor sp u r" for r
    by (rule file_descriptor_cong) (simp_all add: u1_def)
  have tot1: "\<forall>r\<in>set reports. \<exists>d. file_descriptor sp u1 r = Inr d"
    using tot by (simp add: fd)
  have ar1: "append_reports sp u1 (old @ ds) reports = (old @ ds @ ds, None)"
    using append_reports_all [OF tot1, of "old @ ds"] by (simp add: fd ds_def)
  have p2: "process_download_reports sp u1 reports = (u2, None)"
    using process_download_reports_list [OF k1 m1 f1, of sp reports]
    by (simp add: ar1 u2_def md2_def)
  have m2: "metadata u2 = PDict md2" by (simp add: u2_def)
  have f2: "map_of md2 ''files'' = Some (PList (old @ ds @ ds))"
    by (simp add: md2_def update_conv')
  have ne: "u2 \<noteq> u1" if "reports \<noteq> []"
  proof
    assume "u2 = u1"
    with m1 m2 have "md2 = md1" by simp
    with f1 f2 have "ds = []" by simp
    with len that show False by simp
  qed
  from len la p1 m1 f1 p2 m2 f2 ne show ?thesis by blast
qed

theorem process_download_reports_appends_witness:
  "let dist = \<lparr>klass = Distribution,
               attrs = [(''id'', PStr ''ks-f20-server-1-x86_64''), (''family'', PStr ''f20''),
                        (''variant'', PStr ''server''), (''version'', PStr ''1''),
                        (''arch'', PStr ''x86_64'')],
               metadata = PDict []\<rparr>;
       rep = \<lparr>url = PStr ''http://host/f20/images/boot.iso'',
              destination = PStr ''/tmp/work/images/boot.iso'',
              total_bytes = PInt 4096,
              data = [(''checksum'', PStr ''abc''), (''checksumtype'', PStr ''sha256''),
                      (''relativepath'', PStr ''images/boot.iso'')]\<rparr>;
       desc = PDict
          [(''checksum'', PStr ''abc''),
           (''checksumtype'', PStr ''sha256''),
           (''downloadurl'', PStr ''http://host/f20/images/boot.iso''),
           (''filename'', PStr ''boot.iso''),
           (''fileName'', PStr ''boot.iso''),
           (''item_type'', PStr ''distribution''),
           (''pkgpath'', PStr ''/var/lib/pulp/distribution/ks-f20-server-1-x86_64/images''),
           (''relativepath'', PStr ''images/boot.iso''),
           (''savepath'', PStr ''/tmp/work/images/boot.iso''),
           (''size'', PInt 4096)]
   in klass dist = Distribution
    \<and> getattr dist ''id'' = Inr (PStr ''ks-f20-server-1-x86_64'')
    \<and> metadata dist = PDict []
    \<and> map_of ([] :: pydict) ''files'' = None
    \<and> (\<forall>r\<in>set [rep]. \<exists>c t p.
              getitem (data r) ''checksum'' = Inr c \<and>
              getitem (data r) ''checksumtype'' = Inr t \<and>
              getitem (data r) ''relativepath'' = Inr (PStr p))
    \<and> file_descriptor ''/var/lib/pulp/distribution'' dist rep = Inr desc
    \<and> process_download_reports ''/var/lib/pulp/distribution'' dist [rep] =
        (dist\<lparr>metadata := PDict [(''files'', PList [desc])]\<rparr>, None)
    \<and> process_download_reports ''/var/lib/pulp/distribution''
        (dist\<lparr>metadata := PDict [(''files'', PList [desc])]\<rparr>) [rep] =
        (dist\<lparr>metadata := PDict [(''files'', PList [desc, desc])]\<rparr>, None)"
  using process_download_reports_appends
    [of "\<lparr>klass = Distribution,
          attrs = [(''id'', PStr ''ks-f20-server-1-x86_64''), (''family'', PStr ''f20''),
                   (''variant'', PStr ''server''), (''version'', PStr ''1''),
                   (''arch'', PStr ''x86_64'')],
          metadata = PDict []\<rparr>"
        "''ks-f20-server-1-x86_64''" "[]" "[]"
        "[\<lparr>url = PStr ''http://host/f20/images/boot.iso'',
           destination = PStr ''/tmp/work/images/boot.iso'',
           total_bytes = PInt 4096,
           data = [(''checksum'', PStr ''abc''), (''checksumtype'', PStr ''sha256''),
                   (''relativepath'', PStr ''images/boot.iso'')]\<rparr>]"
        "''/var/lib/pulp/distribution''"]
  by (simp add: Let_def process_download_reports_def file_descriptor_def getitem_def
      getattr_def basename_def dirname_def startswith_slash_def endswith_slash_def)

text \<open>
  C10. Whatever the instance and the reports, and whether or not the call raises,
  \<^verbatim>\<open>process_download_reports\<close> leaves the class, the key attributes and hence the unit
  key as they were; every metadata entry other than \<^verbatim>\<open>files\<close> keeps its value; a list
  already stored under \<^verbatim>\<open>files\<close> is a prefix of the list stored afterwards; metadata
  that is not a dictionary is left as it is.
\<close>

theorem process_download_reports_frame:
  assumes "process_download_reports sp u reports = (u', err)"
  shows "klass u' = klass u \<and> attrs u' = attrs u \<and> unit_key u' = unit_key u
    \<and> (\<forall>md. metadata u = PDict md \<longrightarrow>
          (\<exists>md'. metadata u' = PDict md' \<and>
             (\<forall>k. k \<noteq> ''files'' \<longrightarrow> map_of md' k = map_of md k) \<and>
             (\<forall>fs. map_of md ''files'' = Some (PList fs) \<longrightarrow>
                (\<exists>new. map_of md' ''files'' = Some (PList (fs @ new))))))
    \<and> ((\<forall>md. metadata u \<noteq> PDict md) \<longrightarrow> metadata u' = metadata u)"
proof -
  from process_download_reports_shape [OF assms]
  consider (same) "u' = u"
    | (upd) md fs new where "metadata u = PDict md"
        "map_of md ''files'' = None \<and> fs = [] \<or> map_of md ''files'' = Some (PList fs)"
        "u' = u\<lparr>metadata := PDict (AList.update ''files'' (PList (fs @ new)) md)\<rparr>"
    by blast
  then show ?thesis
  proof cases
    case same
    have "\<exists>new. map_of md ''files'' = Some (PList (fs @ new))"
      if "map_of md ''files'' = Some (PList fs)" for md fs
      using that by (intro exI [of _ "[]"]) simp
    then show ?thesis by (simp add: same)
  next
    case upd
    have k: "klass u' = klass u" and a: "attrs u' = attrs u" by (simp_all add: upd(3))
    have m: "metadata u' = PDict (AList.update ''files'' (PList (fs @ new)) md)"
      by (simp add: upd(3))
    have o: "map_of (AList.update ''files'' (PList (fs @ new)) md) k = map_of md k"
      if "k \<noteq> ''files''" for k
      using that by (simp add: update_conv')
    have f: "\<exists>new'. map_of (AList.update ''files'' (PList (fs @ new)) md) ''files'' =
                Some (PList (fs' @ new'))"
      if "map_of md ''files'' = Some (PList fs')" for fs'
    proof -
      from that upd(2) have "fs' = fs" by simp
      then show ?thesis by (simp add: update_conv')
    qed
    from k a unit_key_cong [OF a k] m o f upd(1) show ?thesis by simp
  qed
qed

theorem process_download_reports_frame_witness:
  "let dist = \<lparr>klass = Distribution,
               attrs = [(''id'', PStr ''ks-f20-server-1-x86_64''), (''family'', PStr ''f20''),
                        (''variant'', PStr ''server''), (''version'', PStr ''1''),
                        (''arch'', PStr ''x86_64'')],
               metadata = PDict [(''timestamp'', PInt 7),
                                 (''files'', PList [PStr ''earlier''])]\<rparr>;
       rep = \<lparr>url = PStr ''http://host/f20/vmlinuz'',
              destination = PStr ''/tmp/work/vmlinuz'',
              total_bytes = PInt 512,
              data = [(''checksum'', PStr ''abc''), (''checksumtype'', PStr ''sha256''),
                      (''relativepath'', PStr ''vmlinuz'')]\<rparr>;
       desc = PDict
          [(''checksum'', PStr ''abc''),
           (''checksumtype'', PStr ''sha256''),
           (''downloadurl'', PStr ''http://host/f20/vmlinuz''),
           (''filename'', PStr ''vmlinuz''),
           (''fileName'', PStr ''vmlinuz''),
           (''item_type'', PStr ''distribution''),
           (''pkgpath'', PStr ''/var/lib/pulp/distribution/ks-f20-server-1-x86_64/''),
           (''relativepath'', PStr ''vmlinuz''),
           (''savepath'', PStr ''/tmp/work/vmlinuz''),
           (''size'', PInt 512)];
       after = dist\<lparr>metadata := PDict [(''timestamp'', PInt 7),
                                         (''files'', PList [PStr ''earlier'', desc])]\<rparr>
   in process_download_reports ''/var/lib/pulp/distribution'' dist [rep] = (after, None)
    \<and> klass after = klass dist \<and> attrs after = attrs dist \<and> unit_key after = unit_key dist
    \<and> map_of [(''timestamp'', PInt 7), (''files'', PList [PStr ''earlier'', desc])] ''timestamp''
        = map_of [(''timestamp'', PInt 7), (''files'', PList [PStr ''earlier''])] ''timestamp''"
  using process_download_reports_frame
    [of "''/var/lib/pulp/distribution''"
        "\<lparr>klass = Distribution,
          attrs = [(''id'', PStr ''ks-f20-server-1-x86_64''), (''family'', PStr ''f20''),
                   (''variant'', PStr ''server''), (''version'', PStr ''1''),
                   (''arch'', PStr ''x86_64'')],
          metadata = PDict [(''timestamp'', PInt 7), (''files'', PList [PStr ''earlier''])]\<rparr>"
        "[\<lparr>url = PStr ''http://host/f20/vmlinuz'',
           destination = PStr ''/tmp/work/vmlinuz'',
           total_bytes = PInt 512,
           data = [(''checksum'', PStr ''abc''), (''checksumtype'', PStr ''sha256''),
                   (''relativepath'', PStr ''vmlinuz'')]\<rparr>]"
        "\<lparr>klass = Distribution,
          attrs = [(''id'', PStr ''ks-f20-server-1-x86_64''), (''family'', PStr ''f20''),
                   (''variant'', PStr ''server''), (''version'', PStr ''1''),
                   (''arch'', PStr ''x86_64'')],
          metadata = PDict [(''timestamp'', PInt 7),
            (''files'', PList [PStr ''earlier'', PDict
          [(''checksum'', PStr ''abc''),
           (''checksumtype'', PStr ''sha256''),
           (''downloadurl'', PStr ''http://host/f20/vmlinuz''),
           (''filename'', PStr ''vmlinuz''),
           (''fileName'', PStr ''vmlinuz''),
           (''item_type'', PStr ''distribution''),
           (''pkgpath'', PStr ''/var/lib/pulp/distribution/ks-f20-server-1-x86_64/''),
           (''relativepath'', PStr ''vmlinuz''),
           (''savepath'', PStr ''/tmp/work/vmlinuz''),
           (''size'', PInt 512)]])]\<rparr>"
        None]
  by (simp add: Let_def process_download_reports_def file_descriptor_def getitem_def
      getattr_def basename_def dirname_def startswith_slash_def endswith_slash_def
      unit_key_def)

end
